theory Spec2Isabelle
  imports Complex_Main "HOL-Library.Log_Nat" "HOL-Library.Sublist"
begin

section \<open>Data model\<close>

text \<open>
  A JavaScript string is a sequence of UTF-16 code units. A code unit is modelled by its
  number, so that the white space recognised by \<^verbatim>\<open>trim\<close> and by the regular
  expression class \<^verbatim>\<open>\s\<close> is the full ECMAScript set and not only its ASCII part.
  \<open>str\<close> turns an Isabelle literal into such a string.
\<close>

type_synonym jschar = nat
type_synonym jsstring = "jschar list"

definition str :: "string \<Rightarrow> jsstring" where
  "str s = map of_char s"

text \<open>
  \<^verbatim>\<open>String(n)\<close> for a non-negative integer \<open>n\<close> (here always a list length plus
  one): its decimal digits, most significant first, without leading zeros.
\<close>

fun String_nat :: "nat \<Rightarrow> jsstring" where
  "String_nat n = (if n < 10 then [48 + n] else String_nat (n div 10) @ [48 + n mod 10])"

declare String_nat.simps [simp del]

text \<open>
  A JavaScript number is an IEEE 754 double. \<open>Fin q\<close> is the finite double whose value
  is the rational \<open>q\<close>; the two zeros are not told apart (they are equal under
  \<^verbatim>\<open><\<close>, \<^verbatim>\<open>>=\<close> and \<^verbatim>\<open>||\<close>, the only tests the code applies).
\<close>

datatype jsnumber = NaN | PosInf | NegInf | Fin rat

text \<open>The comparisons \<^verbatim>\<open>a < b\<close> and \<^verbatim>\<open>a >= b\<close>: false as soon as one side is NaN.\<close>

fun js_lt :: "jsnumber \<Rightarrow> jsnumber \<Rightarrow> bool" where
  "js_lt NaN _ = False"
| "js_lt _ NaN = False"
| "js_lt PosInf _ = False"
| "js_lt NegInf NegInf = False"
| "js_lt NegInf _ = True"
| "js_lt (Fin a) PosInf = True"
| "js_lt (Fin a) NegInf = False"
| "js_lt (Fin a) (Fin b) = (a < b)"

fun js_ge :: "jsnumber \<Rightarrow> jsnumber \<Rightarrow> bool" where
  "js_ge NaN _ = False"
| "js_ge _ NaN = False"
| "js_ge a b = (\<not> js_lt a b)"

text \<open>The entities of \<^verbatim>\<open>CRMContext.tsx\<close> and \<^verbatim>\<open>AuthContext\<close>.\<close>

datatype role = Admin | User

record user =
  u_id :: jsstring
  u_name :: jsstring
  u_email :: jsstring
  u_role :: role
  u_createdAt :: jsstring

record customer =
  c_id :: jsstring
  c_name :: jsstring
  c_email :: jsstring
  c_phone :: "jsstring option"
  c_company :: "jsstring option"
  c_ownerId :: jsstring
  c_createdAt :: jsstring

text \<open>
  The status of a lead is declared as the union type
  \<^verbatim>\<open>'New' | 'Contacted' | 'Converted' | 'Lost'\<close>, the datatype \<open>status\<close>. The types
  are erased when the program runs: a status is then a string, and nothing in the code
  inspects it. The records and the operations on them are therefore stated for any
  representation \<open>'st\<close> of the status: \<open>status\<close> is the program as the type checker
  sees it, \<open>jsstring\<close> the program as it runs.
\<close>

datatype status = New | Contacted | Converted | Lost

record 'st lead =
  l_id :: jsstring
  l_customerId :: jsstring
  l_title :: jsstring
  l_description :: "jsstring option"
  l_status :: 'st
  l_value :: jsnumber
  l_createdAt :: jsstring

text \<open>
  \<^verbatim>\<open>Omit<Customer, '_id' | 'ownerId' | 'createdAt'>\<close> and \<^verbatim>\<open>Partial<Customer>\<close>.
  In a patch \<open>None\<close> is an absent property; for the optional fields \<open>Some None\<close> is a
  property that is present and \<^verbatim>\<open>undefined\<close>.
\<close>

record customerData =
  d_name :: jsstring
  d_email :: jsstring
  d_phone :: "jsstring option"
  d_company :: "jsstring option"

record customerPatch =
  p_id :: "jsstring option"
  p_name :: "jsstring option"
  p_email :: "jsstring option"
  p_phone :: "jsstring option option"
  p_company :: "jsstring option option"
  p_ownerId :: "jsstring option"
  p_createdAt :: "jsstring option"

text \<open>\<^verbatim>\<open>Omit<Lead, '_id' | 'createdAt'>\<close> and \<^verbatim>\<open>Partial<Lead>\<close>.\<close>

record 'st leadData =
  ld_customerId :: jsstring
  ld_title :: jsstring
  ld_description :: "jsstring option"
  ld_status :: 'st
  ld_value :: jsnumber

record 'st leadPatch =
  lp_id :: "jsstring option"
  lp_customerId :: "jsstring option"
  lp_title :: "jsstring option"
  lp_description :: "jsstring option option"
  lp_status :: "'st option"
  lp_value :: "jsnumber option"
  lp_createdAt :: "jsstring option"

text \<open>The three \<^verbatim>\<open>useState\<close> cells of \<^verbatim>\<open>CRMProvider\<close>.\<close>

record 'st crm =
  customers :: "customer list"
  leads :: "'st lead list"
  loading :: bool

section \<open>The state container\<close>

text \<open>
  Every operation of the provider is an \<^verbatim>\<open>async\<close> function: it sets the loading
  flag, waits for a timer, applies its functional updates and clears the flag in
  \<^verbatim>\<open>finally\<close>. The awaited timer promise never rejects, so the \<^verbatim>\<open>catch\<close> branch is
  never taken. An operation is modelled as the transition from the state in which it is
  called to the state after it has completed, operations running one after the other;
  the toast notifications are left out. The current user comes from the authentication
  context and the timestamp from the clock; both are parameters.
\<close>

definition setLoading :: "bool \<Rightarrow> 'st crm \<Rightarrow> 'st crm" where
  "setLoading b s = s\<lparr>loading := b\<rparr>"

definition setCustomers :: "(customer list \<Rightarrow> customer list) \<Rightarrow> 'st crm \<Rightarrow> 'st crm" where
  "setCustomers f s = s\<lparr>customers := f (customers s)\<rparr>"

definition setLeads :: "('st lead list \<Rightarrow> 'st lead list) \<Rightarrow> 'st crm \<Rightarrow> 'st crm" where
  "setLeads f s = s\<lparr>leads := f (leads s)\<rparr>"

definition addCustomer ::
  "user option \<Rightarrow> jsstring \<Rightarrow> customerData \<Rightarrow> 'st crm \<Rightarrow> 'st crm" where
  "addCustomer usr now customerData s =
     (case usr of
        None \<Rightarrow> s
      | Some u \<Rightarrow>
          (let newCustomer =
                 \<lparr>c_id = String_nat (length (customers s) + 1),
                  c_name = d_name customerData,
                  c_email = d_email customerData,
                  c_phone = d_phone customerData,
                  c_company = d_company customerData,
                  c_ownerId = u_id u,
                  c_createdAt = now\<rparr>
           in setLoading False
                (setCustomers (\<lambda>prev. prev @ [newCustomer]) (setLoading True s))))"

text \<open>The object spread \<^verbatim>\<open>{ ...customer, ...customerData }\<close>.\<close>

definition mergeCustomer :: "customer \<Rightarrow> customerPatch \<Rightarrow> customer" where
  "mergeCustomer c p =
     \<lparr>c_id = (case p_id p of None \<Rightarrow> c_id c | Some v \<Rightarrow> v),
      c_name = (case p_name p of None \<Rightarrow> c_name c | Some v \<Rightarrow> v),
      c_email = (case p_email p of None \<Rightarrow> c_email c | Some v \<Rightarrow> v),
      c_phone = (case p_phone p of None \<Rightarrow> c_phone c | Some v \<Rightarrow> v),
      c_company = (case p_company p of None \<Rightarrow> c_company c | Some v \<Rightarrow> v),
      c_ownerId = (case p_ownerId p of None \<Rightarrow> c_ownerId c | Some v \<Rightarrow> v),
      c_createdAt = (case p_createdAt p of None \<Rightarrow> c_createdAt c | Some v \<Rightarrow> v)\<rparr>"

definition updateCustomer :: "jsstring \<Rightarrow> customerPatch \<Rightarrow> 'st crm \<Rightarrow> 'st crm" where
  "updateCustomer ident customerData s =
     setLoading False
       (setCustomers
          (map (\<lambda>customer. if c_id customer = ident then mergeCustomer customer customerData
                            else customer))
          (setLoading True s))"

definition deleteCustomer :: "jsstring \<Rightarrow> 'st crm \<Rightarrow> 'st crm" where
  "deleteCustomer ident s =
     setLoading False
       (setLeads (filter (\<lambda>lead. l_customerId lead \<noteq> ident))
          (setCustomers (filter (\<lambda>customer. c_id customer \<noteq> ident))
             (setLoading True s)))"

definition getCustomer :: "'st crm \<Rightarrow> jsstring \<Rightarrow> customer option" where
  "getCustomer s ident = find (\<lambda>customer. c_id customer = ident) (customers s)"

definition addLead :: "jsstring \<Rightarrow> 'st leadData \<Rightarrow> 'st crm \<Rightarrow> 'st crm" where
  "addLead now leadData s =
     (let newLead =
            \<lparr>l_id = String_nat (length (leads s) + 1),
             l_customerId = ld_customerId leadData,
             l_title = ld_title leadData,
             l_description = ld_description leadData,
             l_status = ld_status leadData,
             l_value = ld_value leadData,
             l_createdAt = now\<rparr>
      in setLoading False (setLeads (\<lambda>prev. prev @ [newLead]) (setLoading True s)))"

definition mergeLead :: "'st lead \<Rightarrow> 'st leadPatch \<Rightarrow> 'st lead" where
  "mergeLead l p =
     \<lparr>l_id = (case lp_id p of None \<Rightarrow> l_id l | Some v \<Rightarrow> v),
      l_customerId = (case lp_customerId p of None \<Rightarrow> l_customerId l | Some v \<Rightarrow> v),
      l_title = (case lp_title p of None \<Rightarrow> l_title l | Some v \<Rightarrow> v),
      l_description = (case lp_description p of None \<Rightarrow> l_description l | Some v \<Rightarrow> v),
      l_status = (case lp_status p of None \<Rightarrow> l_status l | Some v \<Rightarrow> v),
      l_value = (case lp_value p of None \<Rightarrow> l_value l | Some v \<Rightarrow> v),
      l_createdAt = (case lp_createdAt p of None \<Rightarrow> l_createdAt l | Some v \<Rightarrow> v)\<rparr>"

definition updateLead :: "jsstring \<Rightarrow> 'st leadPatch \<Rightarrow> 'st crm \<Rightarrow> 'st crm" where
  "updateLead ident leadData s =
     setLoading False
       (setLeads (map (\<lambda>lead. if l_id lead = ident then mergeLead lead leadData else lead))
          (setLoading True s))"

definition deleteLead :: "jsstring \<Rightarrow> 'st crm \<Rightarrow> 'st crm" where
  "deleteLead ident s =
     setLoading False (setLeads (filter (\<lambda>lead. l_id lead \<noteq> ident)) (setLoading True s))"

definition getCustomerLeads :: "'st crm \<Rightarrow> jsstring \<Rightarrow> 'st lead list" where
  "getCustomerLeads s customerId = filter (\<lambda>lead. l_customerId lead = customerId) (leads s)"

text \<open>
  The effect on \<^verbatim>\<open>[user]\<close>: the mock data is loaded when a user is logged in and
  both lists are emptied when none is. The lists are given in the order in which the module
  writes them. The dashboard page sorts the array of leads it reads in place, newest
  first, and that array is the state's own (and, as long as no lead operation has replaced
  it, the module's): once that page has been shown the leads of a state are a permutation
  of what is computed here. The statements below hold for every state, whatever the order
  of its lists; only the worked examples show the order of the module.
\<close>

definition mockCustomers :: "customer list" where
  "mockCustomers =
     [\<lparr>c_id = str ''1'', c_name = str ''Acme Corp'', c_email = str ''contact@acme.com'',
       c_phone = Some (str ''+1-555-0123''), c_company = Some (str ''Acme Corp''),
       c_ownerId = str ''1'', c_createdAt = str ''2024-01-15T10:30:00Z''\<rparr>,
      \<lparr>c_id = str ''2'', c_name = str ''TechStart Inc'', c_email = str ''hello@techstart.com'',
       c_phone = Some (str ''+1-555-0456''), c_company = Some (str ''TechStart Inc''),
       c_ownerId = str ''1'', c_createdAt = str ''2024-01-20T14:20:00Z''\<rparr>,
      \<lparr>c_id = str ''3'', c_name = str ''Global Solutions'',
       c_email = str ''info@globalsolutions.com'',
       c_phone = Some (str ''+1-555-0789''), c_company = Some (str ''Global Solutions Ltd''),
       c_ownerId = str ''1'', c_createdAt = str ''2024-02-05T09:15:00Z''\<rparr>]"

definition mockLeads :: "status lead list" where
  "mockLeads =
     [\<lparr>l_id = str ''1'', l_customerId = str ''1'',
       l_title = str ''Enterprise Software License'',
       l_description = Some (str ''Annual software license for 100 users''),
       l_status = Contacted, l_value = Fin 50000,
       l_createdAt = str ''2024-01-16T11:00:00Z''\<rparr>,
      \<lparr>l_id = str ''2'', l_customerId = str ''1'',
       l_title = str ''Consulting Services'',
       l_description = Some (str ''Implementation consulting for Q2''),
       l_status = New, l_value = Fin 25000,
       l_createdAt = str ''2024-01-18T16:30:00Z''\<rparr>,
      \<lparr>l_id = str ''3'', l_customerId = str ''2'',
       l_title = str ''Cloud Migration'',
       l_description = Some (str ''Complete cloud infrastructure migration''),
       l_status = Converted, l_value = Fin 75000,
       l_createdAt = str ''2024-01-21T13:45:00Z''\<rparr>,
      \<lparr>l_id = str ''4'', l_customerId = str ''3'',
       l_title = str ''Security Audit'',
       l_description = Some (str ''Comprehensive security assessment''),
       l_status = Lost, l_value = Fin 15000,
       l_createdAt = str ''2024-02-06T10:20:00Z''\<rparr>]"

definition initialState :: "'st crm" where
  "initialState = \<lparr>customers = [], leads = [], loading = False\<rparr>"

definition loadData :: "user option \<Rightarrow> status crm \<Rightarrow> status crm" where
  "loadData usr s =
     (case usr of
        Some u \<Rightarrow> s\<lparr>customers := mockCustomers, leads := mockLeads\<rparr>
      | None \<Rightarrow> s\<lparr>customers := [], leads := []\<rparr>)"

text \<open>
  A call of one of the six mutating operations, with its arguments (and the time at
  which a created entity is stamped), and the state reached by a sequence of calls.
\<close>

datatype 'st operation =
    AddCustomer jsstring customerData
  | UpdateCustomer jsstring customerPatch
  | DeleteCustomer jsstring
  | AddLead jsstring "'st leadData"
  | UpdateLead jsstring "'st leadPatch"
  | DeleteLead jsstring

fun step :: "user option \<Rightarrow> 'st operation \<Rightarrow> 'st crm \<Rightarrow> 'st crm" where
  "step usr (AddCustomer now d) s = addCustomer usr now d s"
| "step usr (UpdateCustomer ident p) s = updateCustomer ident p s"
| "step usr (DeleteCustomer ident) s = deleteCustomer ident s"
| "step usr (AddLead now d) s = addLead now d s"
| "step usr (UpdateLead ident p) s = updateLead ident p s"
| "step usr (DeleteLead ident) s = deleteLead ident s"

fun run :: "user option \<Rightarrow> 'st operation list \<Rightarrow> 'st crm \<Rightarrow> 'st crm" where
  "run usr [] s = s"
| "run usr (op # ops) s = run usr ops (step usr op s)"

text \<open>
  Referential integrity: the \<^verbatim>\<open>customerId\<close> of every lead is the \<^verbatim>\<open>_id\<close> of a
  customer of the list.
\<close>

definition hasCustomer :: "'st crm \<Rightarrow> jsstring \<Rightarrow> bool" where
  "hasCustomer s ident = list_ex (\<lambda>customer. c_id customer = ident) (customers s)"

definition refIntegrity :: "'st crm \<Rightarrow> bool" where
  "refIntegrity s = list_all (\<lambda>lead. hasCustomer s (l_customerId lead)) (leads s)"

text \<open>
  The calls that cannot break referential integrity by their arguments alone: a lead is
  created for, or moved to, a customer of the list, and a customer keeps its \<^verbatim>\<open>_id\<close>.
  The two modals call the operations in this way: \<^verbatim>\<open>LeadModal\<close> passes the
  \<^verbatim>\<open>customerId\<close> of the customer page and patches title, description, status and
  value only; \<^verbatim>\<open>CustomerModal\<close> patches name, email, phone and company only.
\<close>

fun keepsRefs :: "'st crm \<Rightarrow> 'st operation \<Rightarrow> bool" where
  "keepsRefs s (AddLead now d) = hasCustomer s (ld_customerId d)"
| "keepsRefs s (UpdateLead ident p) =
     (case lp_customerId p of None \<Rightarrow> True | Some c \<Rightarrow> hasCustomer s c)"
| "keepsRefs s (UpdateCustomer ident p) =
     (case p_id p of None \<Rightarrow> True | Some j \<Rightarrow> j = ident)"
| "keepsRefs s _ = True"

fun admissible :: "user option \<Rightarrow> 'st crm \<Rightarrow> 'st operation list \<Rightarrow> bool" where
  "admissible usr s [] = True"
| "admissible usr s (op # ops) = (keepsRefs s op \<and> admissible usr (step usr op s) ops)"

text \<open>The status names offered by the lead form (\<^verbatim>\<open>leadStatuses\<close>).\<close>

definition leadStatuses :: "status list" where
  "leadStatuses = [New, Contacted, Converted, Lost]"

text \<open>The string behind each member of the union type \<^verbatim>\<open>Lead['status']\<close>.\<close>

fun status_str :: "status \<Rightarrow> jsstring" where
  "status_str New = str ''New''"
| "status_str Contacted = str ''Contacted''"
| "status_str Converted = str ''Converted''"
| "status_str Lost = str ''Lost''"









section \<open>Form validation\<close>

text \<open>
  \<^verbatim>\<open>String.prototype.trim\<close> removes white space and line terminators from both ends;
  the class \<^verbatim>\<open>\s\<close> of regular expressions is the same set of code units, and
  \<^verbatim>\<open>\S\<close> is its complement.
\<close>

definition isWhiteSpace :: "jschar \<Rightarrow> bool" where
  "isWhiteSpace c \<longleftrightarrow>
     c \<in> {9, 10, 11, 12, 13, 32, 160, 5760, 8232, 8233, 8239, 8287, 12288, 65279} \<or>
     (8192 \<le> c \<and> c \<le> 8202)"

definition trim :: "jsstring \<Rightarrow> jsstring" where
  "trim s = rev (dropWhile isWhiteSpace (rev (dropWhile isWhiteSpace s)))"

text \<open>
  Regular expressions, as far as the pattern of the customer form needs them: character
  classes, concatenation and repetition. \<open>lang\<close> is the set of strings a pattern
  matches as a whole; \<open>matches\<close> decides it by taking derivatives, one code unit at a
  time. \<^verbatim>\<open>RegExp.prototype.test\<close> without flags succeeds when some substring matches.
\<close>

datatype regex =
    Never
  | Empty
  | Class "jschar \<Rightarrow> bool"
  | Alt regex regex
  | Seq regex regex
  | Star regex

definition Plus :: "regex \<Rightarrow> regex" where
  "Plus r = Seq r (Star r)"

inductive_set repeated :: "jsstring set \<Rightarrow> jsstring set" for L :: "jsstring set" where
  none: "[] \<in> repeated L"
| more: "u \<in> L \<Longrightarrow> v \<in> repeated L \<Longrightarrow> u @ v \<in> repeated L"

fun lang :: "regex \<Rightarrow> jsstring set" where
  "lang Never = {}"
| "lang Empty = {[]}"
| "lang (Class p) = {w. \<exists>c. w = [c] \<and> p c}"
| "lang (Alt r s) = lang r \<union> lang s"
| "lang (Seq r s) = {w. \<exists>u v. w = u @ v \<and> u \<in> lang r \<and> v \<in> lang s}"
| "lang (Star r) = repeated (lang r)"

fun nullable :: "regex \<Rightarrow> bool" where
  "nullable Never = False"
| "nullable Empty = True"
| "nullable (Class p) = False"
| "nullable (Alt r s) = (nullable r \<or> nullable s)"
| "nullable (Seq r s) = (nullable r \<and> nullable s)"
| "nullable (Star r) = True"

fun deriv :: "jschar \<Rightarrow> regex \<Rightarrow> regex" where
  "deriv c Never = Never"
| "deriv c Empty = Never"
| "deriv c (Class p) = (if p c then Empty else Never)"
| "deriv c (Alt r s) = Alt (deriv c r) (deriv c s)"
| "deriv c (Seq r s) =
     (if nullable r then Alt (Seq (deriv c r) s) (deriv c s) else Seq (deriv c r) s)"
| "deriv c (Star r) = Seq (deriv c r) (Star r)"

fun matches :: "regex \<Rightarrow> jsstring \<Rightarrow> bool" where
  "matches r [] = nullable r"
| "matches r (c # cs) = matches (deriv c r) cs"

definition regex_test :: "regex \<Rightarrow> jsstring \<Rightarrow> bool" where
  "regex_test r s = list_ex (\<lambda>tl. list_ex (matches r) (prefixes tl)) (suffixes s)"

text \<open>The pattern \<^verbatim>\<open>/\S+@\S+\.\S+/\<close>; 64 is \<^verbatim>\<open>@\<close> and 46 is the full stop.\<close>

definition nonSpace :: regex where
  "nonSpace = Class (\<lambda>c. \<not> isWhiteSpace c)"

definition emailPattern :: regex where
  "emailPattern =
     Seq (Plus nonSpace)
       (Seq (Class (\<lambda>c. c = 64)) (Seq (Plus nonSpace) (Seq (Class (\<lambda>c. c = 46)) (Plus nonSpace))))"

text \<open>
  The shape in words: somewhere in the string there is a non-empty run of characters
  that are not white space, an \<^verbatim>\<open>@\<close>, another such run, a full stop, and a third run.
\<close>

definition emailShape :: "jsstring \<Rightarrow> bool" where
  "emailShape s \<longleftrightarrow>
     (\<exists>before u v w after.
        s = before @ u @ [64] @ v @ [46] @ w @ after \<and>
        u \<noteq> [] \<and> v \<noteq> [] \<and> w \<noteq> [] \<and>
        (\<forall>c \<in> set (u @ v @ w). \<not> isWhiteSpace c))"

text \<open>
  The form of \<^verbatim>\<open>CustomerModal\<close>. \<^verbatim>\<open>validateForm\<close> builds the error record and
  returns whether it has no key; the model returns both. \<^verbatim>\<open>handleSubmit\<close> returns
  the errors it displays and the call it makes on the context, if any.
\<close>

record customerForm =
  f_name :: jsstring
  f_email :: jsstring
  f_phone :: jsstring
  f_company :: jsstring

definition CustomerModal_validateForm :: "customerForm \<Rightarrow> (jsstring \<rightharpoonup> jsstring) \<times> bool" where
  "CustomerModal_validateForm formData =
     (let e0 = Map.empty;
          e1 = (if trim (f_name formData) = [] then e0(str ''name'' \<mapsto> str ''Name is required'')
                else e0);
          e2 = (if trim (f_email formData) = []
                then e1(str ''email'' \<mapsto> str ''Email is required'')
                else if \<not> regex_test emailPattern (f_email formData)
                then e1(str ''email'' \<mapsto> str ''Email is invalid'')
                else e1)
      in (e2, dom e2 = {}))"

definition formCustomerData :: "customerForm \<Rightarrow> customerData" where
  "formCustomerData formData =
     \<lparr>d_name = f_name formData, d_email = f_email formData,
      d_phone = Some (f_phone formData), d_company = Some (f_company formData)\<rparr>"

definition formCustomerPatch :: "customerForm \<Rightarrow> customerPatch" where
  "formCustomerPatch formData =
     \<lparr>p_id = None, p_name = Some (f_name formData), p_email = Some (f_email formData),
      p_phone = Some (Some (f_phone formData)), p_company = Some (Some (f_company formData)),
      p_ownerId = None, p_createdAt = None\<rparr>"

text \<open>\<^verbatim>\<open>isEditing = !!customerId\<close>: the identifier is neither null nor the empty string.\<close>

definition CustomerModal_handleSubmit ::
  "jsstring option \<Rightarrow> jsstring \<Rightarrow> customerForm \<Rightarrow>
   (jsstring \<rightharpoonup> jsstring) \<times> 'st operation option" where
  "CustomerModal_handleSubmit customerId now formData =
     (let (errors, ok) = CustomerModal_validateForm formData
      in if \<not> ok then (errors, None)
         else (case customerId of
                 None \<Rightarrow> (errors, Some (AddCustomer now (formCustomerData formData)))
               | Some i \<Rightarrow>
                   if i \<noteq> [] then (errors, Some (UpdateCustomer i (formCustomerPatch formData)))
                   else (errors, Some (AddCustomer now (formCustomerData formData)))))"

text \<open>
  The form of \<^verbatim>\<open>LeadModal\<close>. \<^verbatim>\<open>!formData.status\<close> holds for the empty string only.
  The change handler of the value field stores \<^verbatim>\<open>parseFloat(e.target.value) || 0\<close>:
  a parse result that is NaN or zero is stored as 0.
\<close>

record leadForm =
  lf_title :: jsstring
  lf_description :: jsstring
  lf_status :: status
  lf_value :: jsnumber

definition LeadModal_validateForm :: "leadForm \<Rightarrow> (jsstring \<rightharpoonup> jsstring) \<times> bool" where
  "LeadModal_validateForm formData =
     (let e0 = Map.empty;
          e1 = (if trim (lf_title formData) = []
                then e0(str ''title'' \<mapsto> str ''Title is required'') else e0);
          e2 = (if status_str (lf_status formData) = []
                then e1(str ''status'' \<mapsto> str ''Status is required'') else e1);
          e3 = (if js_lt (lf_value formData) (Fin 0)
                then e2(str ''value'' \<mapsto> str ''Value must be positive'') else e2)
      in (e3, dom e3 = {}))"

definition orZero :: "jsnumber \<Rightarrow> jsnumber" where
  "orZero v = (if v = NaN \<or> v = Fin 0 then Fin 0 else v)"

definition handleValueChange :: "jsnumber \<Rightarrow> leadForm \<Rightarrow> leadForm" where
  "handleValueChange parsed formData = formData\<lparr>lf_value := orZero parsed\<rparr>"

text \<open>
  \<^verbatim>\<open>handleSubmit\<close> of \<^verbatim>\<open>LeadModal\<close>: when the form is valid it calls
  \<^verbatim>\<open>updateLead(leadId, formData)\<close> if a lead is being edited and
  \<^verbatim>\<open>addLead({ ...formData, customerId })\<close> otherwise, \<^verbatim>\<open>customerId\<close> being the
  customer of the page that shows the modal.
\<close>

definition formLeadData :: "jsstring \<Rightarrow> leadForm \<Rightarrow> status leadData" where
  "formLeadData customerId formData =
     \<lparr>ld_customerId = customerId, ld_title = lf_title formData,
      ld_description = Some (lf_description formData), ld_status = lf_status formData,
      ld_value = lf_value formData\<rparr>"

definition formLeadPatch :: "leadForm \<Rightarrow> status leadPatch" where
  "formLeadPatch formData =
     \<lparr>lp_id = None, lp_customerId = None, lp_title = Some (lf_title formData),
      lp_description = Some (Some (lf_description formData)),
      lp_status = Some (lf_status formData), lp_value = Some (lf_value formData),
      lp_createdAt = None\<rparr>"

definition LeadModal_handleSubmit ::
  "jsstring \<Rightarrow> jsstring option \<Rightarrow> jsstring \<Rightarrow> leadForm \<Rightarrow>
   (jsstring \<rightharpoonup> jsstring) \<times> status operation option" where
  "LeadModal_handleSubmit customerId leadId now formData =
     (let (errors, ok) = LeadModal_validateForm formData
      in if \<not> ok then (errors, None)
         else (case leadId of
                 None \<Rightarrow> (errors, Some (AddLead now (formLeadData customerId formData)))
               | Some i \<Rightarrow>
                   if i \<noteq> [] then (errors, Some (UpdateLead i (formLeadPatch formData)))
                   else (errors, Some (AddLead now (formLeadData customerId formData)))))"

section \<open>Authentication state\<close>

text \<open>
  The two \<^verbatim>\<open>useState\<close> cells for user and token, the loading flag, and the two Web
  Storage areas, each a map from keys to values. The reply of the login endpoint
  (\<^verbatim>\<open>apiFetch\<close> returns the parsed body or throws an error with a message) and
  \<^verbatim>\<open>JSON.stringify\<close> are parameters of \<^verbatim>\<open>login\<close>, as is the clock.
\<close>

type_synonym storage = "jsstring \<rightharpoonup> jsstring"

record auth =
  a_user :: "user option"
  a_token :: "jsstring option"
  a_loading :: bool
  localStorage :: storage
  sessionStorage :: storage

record loginReply =
  r_token :: jsstring
  r_id :: jsstring
  r_name :: jsstring
  r_email :: jsstring
  r_role :: role

definition persist :: "bool \<Rightarrow> jsstring \<Rightarrow> jsstring \<Rightarrow> auth \<Rightarrow> auth" where
  "persist remember key val s =
     (if remember then s\<lparr>localStorage := (localStorage s)(key \<mapsto> val)\<rparr>
      else s\<lparr>sessionStorage := (sessionStorage s)(key \<mapsto> val)\<rparr>)"

text \<open>
  \<^verbatim>\<open>login(email, password, rememberMe = false)\<close>: an omitted third argument is
  \<open>None\<close>. The result is \<open>Inl\<close> the message of the error the function rethrows, or
  \<open>Inr ()\<close>.
\<close>

definition login ::
  "(jsstring \<Rightarrow> jsstring \<Rightarrow> jsstring + loginReply) \<Rightarrow> (user \<Rightarrow> jsstring) \<Rightarrow> jsstring \<Rightarrow>
   jsstring \<Rightarrow> jsstring \<Rightarrow> bool option \<Rightarrow> auth \<Rightarrow> (jsstring + unit) \<times> auth" where
  "login apiLogin stringify now email password rememberMeArg s =
     (let rememberMe = (case rememberMeArg of None \<Rightarrow> False | Some b \<Rightarrow> b);
          s1 = s\<lparr>a_loading := True\<rparr>
      in case apiLogin email password of
           Inl message \<Rightarrow> (Inl message, s1\<lparr>a_loading := False\<rparr>)
         | Inr data \<Rightarrow>
             (let userData =
                    \<lparr>u_id = r_id data, u_name = r_name data, u_email = r_email data,
                     u_role = r_role data, u_createdAt = now\<rparr>;
                  s2 = s1\<lparr>a_user := Some userData\<rparr>;
                  s3 = s2\<lparr>a_token := Some (r_token data)\<rparr>;
                  s4 = persist rememberMe (str ''crm_token'') (r_token data) s3;
                  s5 = persist rememberMe (str ''crm_user'') (stringify userData) s4
              in (Inr (), s5\<lparr>a_loading := False\<rparr>)))"

definition removeItem :: "jsstring \<Rightarrow> storage \<Rightarrow> storage" where
  "removeItem key st = st(key := None)"

definition logout :: "auth \<Rightarrow> auth" where
  "logout s =
     (let s1 = s\<lparr>a_user := None\<rparr>;
          s2 = s1\<lparr>a_token := None\<rparr>;
          s3 = s2\<lparr>localStorage := removeItem (str ''crm_token'') (localStorage s2)\<rparr>;
          s4 = s3\<lparr>localStorage := removeItem (str ''crm_user'') (localStorage s3)\<rparr>;
          s5 = s4\<lparr>sessionStorage := removeItem (str ''crm_token'') (sessionStorage s4)\<rparr>
      in s5\<lparr>sessionStorage := removeItem (str ''crm_user'') (sessionStorage s5)\<rparr>)"

section \<open>Number arithmetic\<close>

text \<open>
  Addition of JavaScript numbers is IEEE 754 binary64 addition: the exact sum of two
  finite doubles, rounded to the nearest double, ties to the one with an even
  significand, and to an infinity when the rounded value reaches \<open>2^1024\<close>. A finite
  double is \<open>m * 2^e\<close> for integers \<open>m\<close> below \<open>2^53\<close> in magnitude and \<open>e\<close> from
  \<open>-1074\<close> on: \<open>roundDouble x\<close> takes the spacing \<open>2^e\<close> of the doubles around \<open>x\<close>
  from the exponent \<open>ilog2 x\<close> of the leading bit of \<open>x\<close>, and rounds \<open>x / 2^e\<close> to an
  integer.
\<close>

definition pow2 :: "int \<Rightarrow> rat" where
  "pow2 e = (if 0 \<le> e then 2 ^ nat e else 1 / 2 ^ nat (- e))"

definition ilog2 :: "rat \<Rightarrow> int" where
  "ilog2 x = (if 1 \<le> \<bar>x\<bar> then bitlen \<lfloor>\<bar>x\<bar>\<rfloor> - 1 else - bitlen (\<lceil>1 / \<bar>x\<bar>\<rceil> - 1))"

definition roundHalfEven :: "rat \<Rightarrow> int" where
  "roundHalfEven x =
     (let f = \<lfloor>x\<rfloor>; r = x - of_int f
      in if r < 1 / 2 then f else if 1 / 2 < r then f + 1 else if even f then f else f + 1)"

definition roundDouble :: "rat \<Rightarrow> jsnumber" where
  "roundDouble x =
     (if x = 0 then Fin 0
      else (let e = max (ilog2 x - 52) (- 1074);
                y = of_int (roundHalfEven (x / pow2 e)) * pow2 e
            in if y \<noteq> 0 \<and> 1024 \<le> ilog2 y then (if 0 < y then PosInf else NegInf)
               else Fin y))"

fun js_add :: "jsnumber \<Rightarrow> jsnumber \<Rightarrow> jsnumber" where
  "js_add NaN _ = NaN"
| "js_add _ NaN = NaN"
| "js_add PosInf NegInf = NaN"
| "js_add NegInf PosInf = NaN"
| "js_add PosInf _ = PosInf"
| "js_add _ PosInf = PosInf"
| "js_add NegInf _ = NegInf"
| "js_add _ NegInf = NegInf"
| "js_add (Fin a) (Fin b) = roundDouble (a + b)"

section \<open>Dashboard statistics\<close>

text \<open>
  \<^verbatim>\<open>getDashboardStats\<close>. The two lengths and the counts are natural numbers (they stay
  far below \<open>2^53\<close>, where doubles count exactly). In \<^verbatim>\<open>acc[lead.status] || 0\<close> a
  missing entry, a zero and a NaN all give 0.
\<close>

record dashboardStats =
  totalCustomers :: nat
  totalLeads :: nat
  totalValue :: jsnumber
  leadsByStatus :: "status \<rightharpoonup> nat"
  valueByStatus :: "status \<rightharpoonup> jsnumber"

definition countOrZero :: "nat option \<Rightarrow> nat" where
  "countOrZero v = (case v of None \<Rightarrow> 0 | Some n \<Rightarrow> n)"

definition valueOrZero :: "jsnumber option \<Rightarrow> jsnumber" where
  "valueOrZero v = (case v of None \<Rightarrow> Fin 0 | Some x \<Rightarrow> orZero x)"

definition getDashboardStats :: "status crm \<Rightarrow> dashboardStats" where
  "getDashboardStats s =
     \<lparr>totalCustomers = length (customers s),
      totalLeads = length (leads s),
      totalValue = foldl (\<lambda>sum lead. js_add sum (l_value lead)) (Fin 0) (leads s),
      leadsByStatus =
        foldl (\<lambda>acc lead. acc(l_status lead \<mapsto> countOrZero (acc (l_status lead)) + 1))
          Map.empty (leads s),
      valueByStatus =
        foldl (\<lambda>acc lead.
                 acc(l_status lead \<mapsto> js_add (valueOrZero (acc (l_status lead))) (l_value lead)))
          Map.empty (leads s)\<rparr>"

text \<open>
  The sum of the entries of a per-status record: of the counts, and of the values that
  are present, added as numbers in a given order of the keys.
\<close>

definition sumCounts :: "(status \<rightharpoonup> nat) \<Rightarrow> nat" where
  "sumCounts m = sum_list (map (\<lambda>st. countOrZero (m st)) leadStatuses)"

definition sumValues :: "status list \<Rightarrow> (status \<rightharpoonup> jsnumber) \<Rightarrow> jsnumber" where
  "sumValues order m =
     foldl js_add (Fin 0) (map the (filter (\<lambda>v. v \<noteq> None) (map m order)))"

text \<open>
  Amounts for which addition is exact: every value is a whole number, and the absolute
  values add up to \<open>2^53\<close> at most, so that every partial sum is a whole number
  within the range in which doubles represent all of them.
\<close>

definition wholeAmount :: "jsnumber \<Rightarrow> bool" where
  "wholeAmount v = (case v of Fin q \<Rightarrow> of_int \<lfloor>q\<rfloor> = q | _ \<Rightarrow> False)"

definition amount :: "jsnumber \<Rightarrow> rat" where
  "amount v = (case v of Fin q \<Rightarrow> q | _ \<Rightarrow> 0)"

definition exactAmounts :: "status lead list \<Rightarrow> bool" where
  "exactAmounts ls \<longleftrightarrow>
     list_all (\<lambda>l. wholeAmount (l_value l)) ls \<and>
     sum_list (map (\<lambda>l. \<bar>amount (l_value l)\<bar>) ls) \<le> 2 ^ 53"

text \<open>Three leads entered with the values 0.1, 0.2 and 0.01, for the worked examples.\<close>

definition centLeads :: "status lead list" where
  "centLeads =
     [\<lparr>l_id = str ''1'', l_customerId = str ''1'', l_title = str ''Stickers'',
       l_description = None, l_status = New, l_value = roundDouble (1 / 10),
       l_createdAt = str ''2024-03-01T08:00:00Z''\<rparr>,
      \<lparr>l_id = str ''2'', l_customerId = str ''1'', l_title = str ''Labels'',
       l_description = None, l_status = Contacted, l_value = roundDouble (2 / 10),
       l_createdAt = str ''2024-03-01T08:01:00Z''\<rparr>,
      \<lparr>l_id = str ''3'', l_customerId = str ''2'', l_title = str ''Pins'',
       l_description = None, l_status = New, l_value = roundDouble (1 / 100),
       l_createdAt = str ''2024-03-01T08:02:00Z''\<rparr>]"

text \<open>A logged-in user, for the worked examples.\<close>

definition exampleUser :: user where
  "exampleUser =
     \<lparr>u_id = str ''1'', u_name = str ''Ada'', u_email = str ''ada@example.com'',
      u_role = Admin, u_createdAt = str ''2024-03-01T08:00:00Z''\<rparr>"

section \<open>Properties of the state container\<close>

lemma str_chars: "str [] = []" "str (c # cs) = of_char c # str cs"
  by (simp_all add: str_def)

lemma String_nat_digit: "n < 10 \<Longrightarrow> String_nat n = [48 + n]"
  by (simp add: String_nat.simps)

lemma cells_simps:
  "customers (setLoading b s) = customers s"
  "customers (setLeads g s) = customers s"
  "customers (setCustomers f s) = f (customers s)"
  "leads (setLoading b s) = leads s"
  "leads (setLeads g s) = g (leads s)"
  "leads (setCustomers f s) = leads s"
  "loading (setLoading b s) = b"
  by (simp_all add: setLoading_def setLeads_def setCustomers_def)

text \<open>
  C10. Without a logged-in user \<^verbatim>\<open>addCustomer\<close> returns at once: the customers, the
  leads and the loading flag are what they were, so no customer is created.
\<close>

theorem addCustomer_no_user_unchanged:
  "addCustomer None now customerData s = s"
  by (simp add: addCustomer_def)

text \<open>
  C1. \<^verbatim>\<open>deleteCustomer(id)\<close> keeps, in their order, exactly the customers whose
  \<^verbatim>\<open>_id\<close> differs from \<open>id\<close> and exactly the leads whose \<^verbatim>\<open>customerId\<close> differs
  from \<open>id\<close>: no customer with that \<^verbatim>\<open>_id\<close> and no lead with that
  \<^verbatim>\<open>customerId\<close> is left, and nothing else is removed or moved.
\<close>

theorem deleteCustomer_cascade:
  "customers (deleteCustomer ident s) = filter (\<lambda>c. c_id c \<noteq> ident) (customers s) \<and>
   leads (deleteCustomer ident s) = filter (\<lambda>l. l_customerId l \<noteq> ident) (leads s) \<and>
   ident \<notin> c_id ` set (customers (deleteCustomer ident s)) \<and>
   ident \<notin> l_customerId ` set (leads (deleteCustomer ident s)) \<and>
   set (customers (deleteCustomer ident s)) = {c \<in> set (customers s). c_id c \<noteq> ident} \<and>
   set (leads (deleteCustomer ident s)) = {l \<in> set (leads s). l_customerId l \<noteq> ident}"
  by (auto simp: deleteCustomer_def setLoading_def setCustomers_def setLeads_def)

theorem deleteCustomer_cascade_witness:
  "map c_id (customers (deleteCustomer (str ''1'') (loadData (Some exampleUser) initialState)))
     = [str ''2'', str ''3''] \<and>
   map l_id (leads (deleteCustomer (str ''1'') (loadData (Some exampleUser) initialState)))
     = [str ''3'', str ''4'']"
  using deleteCustomer_cascade [of "str ''1''" "loadData (Some exampleUser) initialState"]
  by (simp add: loadData_def initialState_def mockCustomers_def mockLeads_def str_chars)

text \<open>
  C9. \<^verbatim>\<open>addCustomer\<close> appends a customer whose \<^verbatim>\<open>_id\<close> is
  \<^verbatim>\<open>String(customers.length + 1)\<close>, so the \<^verbatim>\<open>_id\<close> values need not be unique:
  two adds, the deletion of customer 1 and a third add leave two entries with the same
  \<^verbatim>\<open>_id\<close> (5 when the run starts from the mock data, 2 when it starts from empty
  lists), and \<^verbatim>\<open>getCustomer\<close> returns the first of them.
\<close>

theorem addCustomer_duplicate_id:
  "customers (addCustomer (Some u) now d s) =
     customers s @
       [\<lparr>c_id = String_nat (length (customers s) + 1), c_name = d_name d,
         c_email = d_email d, c_phone = d_phone d, c_company = d_company d,
         c_ownerId = u_id u, c_createdAt = now\<rparr>] \<and>
   (let s' = run (Some u)
               [AddCustomer t1 d1, AddCustomer t2 d2, DeleteCustomer (str ''1''),
                AddCustomer t3 d3]
               (loadData (Some u) initialState)
    in map c_id (customers s') = [str ''2'', str ''3'', str ''4'', str ''5'', str ''5''] \<and>
       customers s' ! 3 =
         \<lparr>c_id = str ''5'', c_name = d_name d2, c_email = d_email d2, c_phone = d_phone d2,
          c_company = d_company d2, c_ownerId = u_id u, c_createdAt = t2\<rparr> \<and>
       customers s' ! 4 =
         \<lparr>c_id = str ''5'', c_name = d_name d3, c_email = d_email d3, c_phone = d_phone d3,
          c_company = d_company d3, c_ownerId = u_id u, c_createdAt = t3\<rparr> \<and>
       \<not> distinct (map c_id (customers s')) \<and>
       getCustomer s' (str ''5'') = Some (customers s' ! 3)) \<and>
   (let s' = run (Some u)
               [AddCustomer t1 d1, AddCustomer t2 d2, DeleteCustomer (str ''1''),
                AddCustomer t3 d3]
               initialState
    in customers s' =
         [\<lparr>c_id = str ''2'', c_name = d_name d2, c_email = d_email d2, c_phone = d_phone d2,
           c_company = d_company d2, c_ownerId = u_id u, c_createdAt = t2\<rparr>,
          \<lparr>c_id = str ''2'', c_name = d_name d3, c_email = d_email d3, c_phone = d_phone d3,
           c_company = d_company d3, c_ownerId = u_id u, c_createdAt = t3\<rparr>] \<and>
       getCustomer s' (str ''2'') = Some (customers s' ! 0))"
proof (intro conjI)
  show "customers (addCustomer (Some u) now d s) =
     customers s @
       [\<lparr>c_id = String_nat (length (customers s) + 1), c_name = d_name d,
         c_email = d_email d, c_phone = d_phone d, c_company = d_company d,
         c_ownerId = u_id u, c_createdAt = now\<rparr>]"
    by (simp add: addCustomer_def Let_def cells_simps)
next
  show "let s' = run (Some u)
               [AddCustomer t1 d1, AddCustomer t2 d2, DeleteCustomer (str ''1''),
                AddCustomer t3 d3]
               (loadData (Some u) initialState)
    in map c_id (customers s') = [str ''2'', str ''3'', str ''4'', str ''5'', str ''5''] \<and>
       customers s' ! 3 =
         \<lparr>c_id = str ''5'', c_name = d_name d2, c_email = d_email d2, c_phone = d_phone d2,
          c_company = d_company d2, c_ownerId = u_id u, c_createdAt = t2\<rparr> \<and>
       customers s' ! 4 =
         \<lparr>c_id = str ''5'', c_name = d_name d3, c_email = d_email d3, c_phone = d_phone d3,
          c_company = d_company d3, c_ownerId = u_id u, c_createdAt = t3\<rparr> \<and>
       \<not> distinct (map c_id (customers s')) \<and>
       getCustomer s' (str ''5'') = Some (customers s' ! 3)"
    by (simp add: Let_def addCustomer_def deleteCustomer_def cells_simps getCustomer_def
        loadData_def initialState_def mockCustomers_def String_nat_digit str_chars)
next
  show "let s' = run (Some u)
               [AddCustomer t1 d1, AddCustomer t2 d2, DeleteCustomer (str ''1''),
                AddCustomer t3 d3]
               initialState
    in customers s' =
         [\<lparr>c_id = str ''2'', c_name = d_name d2, c_email = d_email d2, c_phone = d_phone d2,
           c_company = d_company d2, c_ownerId = u_id u, c_createdAt = t2\<rparr>,
          \<lparr>c_id = str ''2'', c_name = d_name d3, c_email = d_email d3, c_phone = d_phone d3,
           c_company = d_company d3, c_ownerId = u_id u, c_createdAt = t3\<rparr>] \<and>
       getCustomer s' (str ''2'') = Some (customers s' ! 0)"
    by (simp add: Let_def addCustomer_def deleteCustomer_def cells_simps getCustomer_def
        initialState_def String_nat_digit str_chars)
qed

subsection \<open>Referential integrity\<close>

lemma hasCustomer_iff: "hasCustomer s i \<longleftrightarrow> i \<in> c_id ` set (customers s)"
  unfolding hasCustomer_def list_ex_iff by (simp add: image_iff) metis

lemma refIntegrity_iff:
  "refIntegrity s \<longleftrightarrow> l_customerId ` set (leads s) \<subseteq> c_id ` set (customers s)"
  unfolding refIntegrity_def list_all_iff hasCustomer_iff by blast

lemma updateCustomer_ids:
  assumes "keepsRefs s (UpdateCustomer ident p)"
  shows "map c_id (customers (updateCustomer ident p s)) = map c_id (customers s)"
proof -
  have "c_id (if c_id c = ident then mergeCustomer c p else c) = c_id c" for c
    using assms by (auto simp: mergeCustomer_def split: option.splits)
  then show ?thesis
    by (simp add: updateCustomer_def cells_simps comp_def)
qed

lemma step_keeps_refIntegrity:
  assumes "refIntegrity s" and "keepsRefs s op"
  shows "refIntegrity (step usr op s)"
proof (cases op)
  case (AddCustomer now d)
  then show ?thesis
    using assms(1)
    by (cases usr) (auto simp: refIntegrity_iff addCustomer_def Let_def cells_simps)
next
  case (UpdateCustomer ident p)
  with assms(2) have "map c_id (customers (updateCustomer ident p s)) = map c_id (customers s)"
    by (simp add: updateCustomer_ids)
  then have "c_id ` set (customers (updateCustomer ident p s)) = c_id ` set (customers s)"
    by (metis set_map)
  moreover have "leads (updateCustomer ident p s) = leads s"
    by (simp add: updateCustomer_def cells_simps)
  ultimately show ?thesis
    using assms(1) UpdateCustomer by (simp add: refIntegrity_iff)
next
  case (DeleteCustomer ident)
  then show ?thesis
    using assms(1) by (auto simp: refIntegrity_iff deleteCustomer_def cells_simps)
next
  case (AddLead now d)
  then show ?thesis
    using assms by (auto simp: refIntegrity_iff hasCustomer_iff addLead_def Let_def cells_simps)
next
  case (UpdateLead ident p)
  then show ?thesis
    using assms
    by (auto simp: refIntegrity_iff hasCustomer_iff updateLead_def cells_simps mergeLead_def
        split: option.splits if_splits)
next
  case (DeleteLead ident)
  then show ?thesis
    using assms(1) by (auto simp: refIntegrity_iff deleteLead_def cells_simps)
qed

lemma run_keeps_refIntegrity:
  "refIntegrity s \<Longrightarrow> admissible usr s ops \<Longrightarrow> refIntegrity (run usr ops s)"
proof (induction ops arbitrary: s)
  case Nil
  then show ?case by simp
next
  case (Cons op ops)
  then show ?case by (simp add: step_keeps_refIntegrity)
qed

text \<open>
  The calls the two modals make are of this kind, the lead form being shown for a customer
  of the list.
\<close>

lemma modal_calls_keep_refs:
  "snd (CustomerModal_handleSubmit cid now cf) = Some op \<Longrightarrow> keepsRefs s op"
  "hasCustomer s customerId \<Longrightarrow>
     snd (LeadModal_handleSubmit customerId lid now lf) = Some op \<Longrightarrow> keepsRefs s op"
  by (auto simp: CustomerModal_handleSubmit_def LeadModal_handleSubmit_def case_prod_beta
      formCustomerPatch_def formLeadData_def formLeadPatch_def
      split: if_splits option.splits)

lemma refIntegrity_loadData: "refIntegrity (loadData usr initialState)"
  by (cases usr)
    (simp_all add: refIntegrity_def hasCustomer_def loadData_def initialState_def
      mockCustomers_def mockLeads_def str_chars)

text \<open>
  C2, as stated, fails: the operations take any argument. From the loaded mock data
  \<^verbatim>\<open>addLead\<close> with the \<^verbatim>\<open>customerId\<close> 99, \<^verbatim>\<open>updateLead\<close> with a patch that sets
  \<^verbatim>\<open>customerId\<close> to 99, and \<^verbatim>\<open>updateCustomer\<close> with a patch that renames the
  \<^verbatim>\<open>_id\<close> of customer 1 each leave a lead without a customer.
\<close>

theorem refIntegrity_counterexample:
  "refIntegrity (loadData (Some exampleUser) initialState) \<and>
   \<not> refIntegrity
       (run (Some exampleUser)
          [AddLead (str ''2024-03-01T00:00:00Z'')
             \<lparr>ld_customerId = str ''99'', ld_title = str ''Orphan'', ld_description = None,
              ld_status = New, ld_value = Fin 0\<rparr>]
          (loadData (Some exampleUser) initialState)) \<and>
   \<not> refIntegrity
       (run (Some exampleUser)
          [UpdateLead (str ''1'')
             \<lparr>lp_id = None, lp_customerId = Some (str ''99''), lp_title = None,
              lp_description = None, lp_status = None, lp_value = None, lp_createdAt = None\<rparr>]
          (loadData (Some exampleUser) initialState)) \<and>
   \<not> refIntegrity
       (run (Some exampleUser)
          [UpdateCustomer (str ''1'')
             \<lparr>p_id = Some (str ''7''), p_name = None, p_email = None, p_phone = None,
              p_company = None, p_ownerId = None, p_createdAt = None\<rparr>]
          (loadData (Some exampleUser) initialState))"
  by (simp add: refIntegrity_def hasCustomer_def loadData_def initialState_def
      mockCustomers_def mockLeads_def str_chars addLead_def updateLead_def updateCustomer_def
      mergeLead_def mergeCustomer_def cells_simps Let_def)

text \<open>
  C2, amended. Referential integrity holds in the initial state and once the mock data
  is loaded, and it is kept by every sequence of operations in which each \<^verbatim>\<open>addLead\<close>
  names a customer of the list, each \<^verbatim>\<open>updateLead\<close> leaves \<^verbatim>\<open>customerId\<close> alone or
  sets it to a customer of the list, and each \<^verbatim>\<open>updateCustomer\<close> leaves \<^verbatim>\<open>_id\<close> as it
  is; \<^verbatim>\<open>addCustomer\<close>, \<^verbatim>\<open>deleteCustomer\<close> and \<^verbatim>\<open>deleteLead\<close> keep it whatever
  their arguments.
\<close>

theorem refIntegrity_invariant:
  "refIntegrity initialState \<and>
   refIntegrity (loadData usr initialState) \<and>
   (refIntegrity s \<longrightarrow> admissible usr s ops \<longrightarrow> refIntegrity (run usr ops s))"
proof -
  have "refIntegrity initialState"
    by (simp add: refIntegrity_def initialState_def)
  then show ?thesis
    by (simp add: refIntegrity_loadData run_keeps_refIntegrity)
qed

theorem refIntegrity_invariant_witness:
  "refIntegrity (loadData (Some exampleUser) initialState) \<and>
   admissible (Some exampleUser) (loadData (Some exampleUser) initialState)
     [AddLead (str ''2024-03-01T00:00:00Z'')
        \<lparr>ld_customerId = str ''2'', ld_title = str ''Support plan'', ld_description = None,
         ld_status = New, ld_value = Fin 1200\<rparr>,
      DeleteCustomer (str ''1'')] \<and>
   refIntegrity
     (run (Some exampleUser)
        [AddLead (str ''2024-03-01T00:00:00Z'')
           \<lparr>ld_customerId = str ''2'', ld_title = str ''Support plan'', ld_description = None,
            ld_status = New, ld_value = Fin 1200\<rparr>,
         DeleteCustomer (str ''1'')]
        (loadData (Some exampleUser) initialState))"
proof -
  have a: "admissible (Some exampleUser) (loadData (Some exampleUser) initialState)
     [AddLead (str ''2024-03-01T00:00:00Z'')
        \<lparr>ld_customerId = str ''2'', ld_title = str ''Support plan'', ld_description = None,
         ld_status = New, ld_value = Fin 1200\<rparr>,
      DeleteCustomer (str ''1'')]"
    by (simp add: hasCustomer_def loadData_def initialState_def mockCustomers_def str_chars)
  show ?thesis
    using a refIntegrity_invariant [of "Some exampleUser" "loadData (Some exampleUser) initialState"
        "[AddLead (str ''2024-03-01T00:00:00Z'')
           \<lparr>ld_customerId = str ''2'', ld_title = str ''Support plan'', ld_description = None,
            ld_status = New, ld_value = Fin 1200\<rparr>,
         DeleteCustomer (str ''1'')]"]
    by blast
qed

subsection \<open>Lead status\<close>












subsection \<open>Form validation\<close>

text \<open>The derivative matcher decides membership in the language of a pattern.\<close>

lemma nullable_iff: "nullable r \<longleftrightarrow> [] \<in> lang r"
  by (induction r) (auto intro: repeated.none)

lemma repeated_cons_split:
  assumes "x \<in> repeated L" and "x = c # w"
  shows "\<exists>u v. w = u @ v \<and> c # u \<in> L \<and> v \<in> repeated L"
  using assms
proof (induction arbitrary: w rule: repeated.induct)
  case none
  then show ?case by simp
next
  case (more u v)
  show ?case
  proof (cases u)
    case Nil
    with more show ?thesis by simp
  next
    case (Cons a u')
    with more.prems have "a = c" and "w = u' @ v" by simp_all
    with more.hyps(1,2) Cons show ?thesis by blast
  qed
qed

lemma repeated_cons_iff:
  "c # w \<in> repeated L \<longleftrightarrow> (\<exists>u v. w = u @ v \<and> c # u \<in> L \<and> v \<in> repeated L)"
proof
  assume "c # w \<in> repeated L"
  then show "\<exists>u v. w = u @ v \<and> c # u \<in> L \<and> v \<in> repeated L"
    by (rule repeated_cons_split) simp
next
  assume "\<exists>u v. w = u @ v \<and> c # u \<in> L \<and> v \<in> repeated L"
  then obtain u v where "w = u @ v" "c # u \<in> L" "v \<in> repeated L" by blast
  then have "(c # u) @ v \<in> repeated L" by (intro repeated.more)
  with \<open>w = u @ v\<close> show "c # w \<in> repeated L" by simp
qed

lemma deriv_lang: "w \<in> lang (deriv c r) \<longleftrightarrow> c # w \<in> lang r"
proof (induction r arbitrary: w)
  case (Seq r s)
  show ?case
  proof
    assume "w \<in> lang (deriv c (Seq r s))"
    then consider (left) u v where "w = u @ v" "u \<in> lang (deriv c r)" "v \<in> lang s"
      | (right) "nullable r" "w \<in> lang (deriv c s)"
      by (auto split: if_splits)
    then show "c # w \<in> lang (Seq r s)"
    proof cases
      case left
      then have "c # w = (c # u) @ v" "c # u \<in> lang r" using Seq.IH(1) by simp_all
      with left(3) show ?thesis by (simp del: append_Cons) blast
    next
      case right
      then have "c # w = [] @ (c # w)" "[] \<in> lang r" "c # w \<in> lang s"
        using Seq.IH(2) nullable_iff by simp_all
      then show ?thesis by (simp del: append_Nil) blast
    qed
  next
    assume "c # w \<in> lang (Seq r s)"
    then obtain u v where uv: "c # w = u @ v" "u \<in> lang r" "v \<in> lang s" by auto
    show "w \<in> lang (deriv c (Seq r s))"
    proof (cases u)
      case Nil
      with uv have "nullable r" "w \<in> lang (deriv c s)"
        using Seq.IH(2) nullable_iff by simp_all
      then show ?thesis by simp
    next
      case (Cons a u')
      with uv have "w = u' @ v" "u' \<in> lang (deriv c r)" using Seq.IH(1) by simp_all
      with uv(3) show ?thesis by auto
    qed
  qed
next
  case (Star r)
  show ?case
    using Star.IH by (simp add: repeated_cons_iff)
qed auto

lemma matches_iff: "matches r w \<longleftrightarrow> w \<in> lang r"
  by (induction w arbitrary: r) (simp_all add: nullable_iff deriv_lang)

lemma regex_test_iff:
  "regex_test r s \<longleftrightarrow> (\<exists>before m after. s = before @ m @ after \<and> m \<in> lang r)"
proof -
  have "regex_test r s \<longleftrightarrow> (\<exists>tl. suffix tl s \<and> (\<exists>m. prefix m tl \<and> m \<in> lang r))"
    unfolding regex_test_def list_ex_iff matches_iff Bex_def in_set_suffixes in_set_prefixes
    by (rule refl)
  also have "\<dots> \<longleftrightarrow> (\<exists>before m after. s = before @ m @ after \<and> m \<in> lang r)"
    unfolding suffix_def prefix_def by blast
  finally show ?thesis .
qed

lemma repeated_class:
  "w \<in> repeated {x. \<exists>c. x = [c] \<and> P c} \<longleftrightarrow> (\<forall>c \<in> set w. P c)"
proof
  assume "w \<in> repeated {x. \<exists>c. x = [c] \<and> P c}"
  then show "\<forall>c \<in> set w. P c"
    by (induction rule: repeated.induct) auto
next
  assume "\<forall>c \<in> set w. P c"
  then show "w \<in> repeated {x. \<exists>c. x = [c] \<and> P c}"
  proof (induction w)
    case Nil
    show ?case by (rule repeated.none)
  next
    case (Cons a w)
    then have "[a] \<in> {x. \<exists>c. x = [c] \<and> P c}" "w \<in> repeated {x. \<exists>c. x = [c] \<and> P c}"
      by simp_all
    then have "[a] @ w \<in> repeated {x. \<exists>c. x = [c] \<and> P c}" by (rule repeated.more)
    then show ?case by simp
  qed
qed

lemma lang_Plus_Class:
  "w \<in> lang (Plus (Class P)) \<longleftrightarrow> w \<noteq> [] \<and> (\<forall>c \<in> set w. P c)"
proof
  assume "w \<in> lang (Plus (Class P))"
  then obtain c v where "w = [c] @ v" "P c" "v \<in> repeated {x. \<exists>c. x = [c] \<and> P c}"
    by (auto simp: Plus_def)
  then show "w \<noteq> [] \<and> (\<forall>c \<in> set w. P c)"
    by (simp add: repeated_class)
next
  assume a: "w \<noteq> [] \<and> (\<forall>c \<in> set w. P c)"
  then obtain c v where w: "w = c # v" by (cases w) auto
  with a have "P c" "v \<in> repeated {x. \<exists>c. x = [c] \<and> P c}"
    by (simp_all add: repeated_class)
  then have "[c] \<in> lang (Class P)" "v \<in> lang (Star (Class P))"
    by simp_all
  then have "[c] @ v \<in> lang (Seq (Class P) (Star (Class P)))"
    unfolding lang.simps(5) by blast
  with w show "w \<in> lang (Plus (Class P))"
    by (simp add: Plus_def)
qed

lemma lang_emailPattern:
  "m \<in> lang emailPattern \<longleftrightarrow>
     (\<exists>u v w. m = u @ [64] @ v @ [46] @ w \<and> u \<noteq> [] \<and> v \<noteq> [] \<and> w \<noteq> [] \<and>
        (\<forall>c \<in> set (u @ v @ w). \<not> isWhiteSpace c))"
proof -
  have "m \<in> lang emailPattern \<longleftrightarrow>
     (\<exists>u v w. m = u @ [64] @ v @ [46] @ w \<and> u \<in> lang (Plus nonSpace) \<and>
        v \<in> lang (Plus nonSpace) \<and> w \<in> lang (Plus nonSpace))"
    unfolding emailPattern_def lang.simps by (simp only: mem_Collect_eq) (simp, blast)
  also have "\<dots> \<longleftrightarrow>
     (\<exists>u v w. m = u @ [64] @ v @ [46] @ w \<and> u \<noteq> [] \<and> v \<noteq> [] \<and> w \<noteq> [] \<and>
        (\<forall>c \<in> set (u @ v @ w). \<not> isWhiteSpace c))"
    unfolding nonSpace_def lang_Plus_Class by (simp add: ball_Un) blast
  finally show ?thesis .
qed

lemma regex_test_emailPattern: "regex_test emailPattern s \<longleftrightarrow> emailShape s"
proof
  assume "regex_test emailPattern s"
  then obtain before m after u v w where
    "s = before @ m @ after" "m = u @ [64] @ v @ [46] @ w"
    and runs: "u \<noteq> []" "v \<noteq> []" "w \<noteq> []" "\<forall>c \<in> set (u @ v @ w). \<not> isWhiteSpace c"
    unfolding regex_test_iff lang_emailPattern by blast
  then have "s = before @ u @ [64] @ v @ [46] @ w @ after" by simp
  with runs show "emailShape s"
    unfolding emailShape_def by blast
next
  assume "emailShape s"
  then obtain before u v w after where
    s: "s = before @ u @ [64] @ v @ [46] @ w @ after"
    and runs: "u \<noteq> []" "v \<noteq> []" "w \<noteq> []" "\<forall>c \<in> set (u @ v @ w). \<not> isWhiteSpace c"
    unfolding emailShape_def by blast
  from s have "s = before @ (u @ [64] @ v @ [46] @ w) @ after" by simp
  moreover from runs have "u @ [64] @ v @ [46] @ w \<in> lang emailPattern"
    unfolding lang_emailPattern by blast
  ultimately show "regex_test emailPattern s"
    unfolding regex_test_iff by blast
qed

text \<open>
  C3. \<^verbatim>\<open>CustomerModal.validateForm\<close> returns true exactly when the name is not empty
  after trimming, the email is not empty after trimming, and the email has the shape
  of \<^verbatim>\<open>/\S+@\S+\.\S+/\<close>; when it returns false \<^verbatim>\<open>handleSubmit\<close> calls neither
  \<^verbatim>\<open>addCustomer\<close> nor \<^verbatim>\<open>updateCustomer\<close> (and when it returns true it calls one
  of them).
\<close>

theorem customer_form_validation:
  "(snd (CustomerModal_validateForm formData) \<longleftrightarrow>
      trim (f_name formData) \<noteq> [] \<and> trim (f_email formData) \<noteq> [] \<and>
      emailShape (f_email formData)) \<and>
   (\<not> snd (CustomerModal_validateForm formData) \<longrightarrow>
      snd (CustomerModal_handleSubmit customerId now formData) = None) \<and>
   (snd (CustomerModal_validateForm formData) \<longrightarrow>
      snd (CustomerModal_handleSubmit customerId now formData) \<noteq> None)"
proof -
  have "snd (CustomerModal_validateForm formData) \<longleftrightarrow>
      trim (f_name formData) \<noteq> [] \<and> trim (f_email formData) \<noteq> [] \<and>
      emailShape (f_email formData)"
    by (simp add: CustomerModal_validateForm_def Let_def regex_test_emailPattern)
  moreover have "\<not> snd (CustomerModal_validateForm formData) \<longrightarrow>
      snd (CustomerModal_handleSubmit customerId now formData) = None"
    by (simp add: CustomerModal_handleSubmit_def case_prod_beta)
  moreover have "snd (CustomerModal_validateForm formData) \<longrightarrow>
      snd (CustomerModal_handleSubmit customerId now formData) \<noteq> None"
    by (simp add: CustomerModal_handleSubmit_def case_prod_beta split: option.splits)
  ultimately show ?thesis by blast
qed

theorem customer_form_validation_witness:
  "\<not> snd (CustomerModal_validateForm
        \<lparr>f_name = str ''Ada'', f_email = str ''a@b'', f_phone = [], f_company = []\<rparr>) \<and>
   snd (CustomerModal_handleSubmit None (str ''2024-03-01T00:00:00Z'')
        \<lparr>f_name = str ''Ada'', f_email = str ''a@b'', f_phone = [], f_company = []\<rparr>)
     = (None :: status operation option) \<and>
   snd (CustomerModal_validateForm
        \<lparr>f_name = str ''Ada'', f_email = str ''a@b.c'', f_phone = [], f_company = []\<rparr>) \<and>
   snd (CustomerModal_handleSubmit None (str ''2024-03-01T00:00:00Z'')
        \<lparr>f_name = str ''Ada'', f_email = str ''a@b.c'', f_phone = [], f_company = []\<rparr>)
     = Some (AddCustomer (str ''2024-03-01T00:00:00Z'')
         \<lparr>d_name = str ''Ada'', d_email = str ''a@b.c'', d_phone = Some [],
          d_company = Some []\<rparr>)"
proof -
  have bad: "\<not> snd (CustomerModal_validateForm
        \<lparr>f_name = str ''Ada'', f_email = str ''a@b'', f_phone = [], f_company = []\<rparr>)"
    by (simp add: CustomerModal_validateForm_def Let_def regex_test_def emailPattern_def
        Plus_def nonSpace_def trim_def isWhiteSpace_def str_chars)
  have shape: "emailShape (str ''a@b.c'')"
    unfolding emailShape_def
    by (rule exI [of _ "[]"], rule exI [of _ "[97]"], rule exI [of _ "[98]"],
        rule exI [of _ "[99]"], rule exI [of _ "[]"])
      (simp add: str_chars isWhiteSpace_def)
  have trims: "trim (str ''Ada'') \<noteq> []" "trim (str ''a@b.c'') \<noteq> []"
    by (simp_all add: trim_def isWhiteSpace_def str_chars)
  have good: "snd (CustomerModal_validateForm
        \<lparr>f_name = str ''Ada'', f_email = str ''a@b.c'', f_phone = [], f_company = []\<rparr>)"
    using shape trims
      customer_form_validation [of "\<lparr>f_name = str ''Ada'', f_email = str ''a@b.c'',
        f_phone = [], f_company = []\<rparr>" None "str ''2024-03-01T00:00:00Z''"]
    by (simp only: customerForm.select_convs) blast
  have none: "snd (CustomerModal_handleSubmit None (str ''2024-03-01T00:00:00Z'')
        \<lparr>f_name = str ''Ada'', f_email = str ''a@b'', f_phone = [], f_company = []\<rparr>)
     = (None :: status operation option)"
    using bad
      customer_form_validation [of "\<lparr>f_name = str ''Ada'', f_email = str ''a@b'',
        f_phone = [], f_company = []\<rparr>" None "str ''2024-03-01T00:00:00Z''"]
    by blast
  have call: "snd (CustomerModal_handleSubmit None (str ''2024-03-01T00:00:00Z'')
        \<lparr>f_name = str ''Ada'', f_email = str ''a@b.c'', f_phone = [], f_company = []\<rparr>)
     = Some (AddCustomer (str ''2024-03-01T00:00:00Z'')
         \<lparr>d_name = str ''Ada'', d_email = str ''a@b.c'', d_phone = Some [],
          d_company = Some []\<rparr>)"
    using good
    by (simp add: CustomerModal_handleSubmit_def formCustomerData_def case_prod_beta)
  show ?thesis
    using bad none good call by blast
qed

lemma status_str_nonempty: "status_str st \<noteq> []"
  by (cases st) (simp_all add: str_chars)

lemma js_ge_zero: "v \<noteq> NaN \<Longrightarrow> js_ge v (Fin 0) = (\<not> js_lt v (Fin 0))"
  by (cases v) simp_all

text \<open>
  C4. With a title that is not empty after trimming (a status is always set),
  \<^verbatim>\<open>LeadModal.validateForm\<close> accepts a value \<open>v\<close> exactly when \<^verbatim>\<open>v < 0\<close> is false,
  which for every number is when \<^verbatim>\<open>v >= 0\<close>; so it is for whatever the change handler
  of the value field stores, which is never NaN. A negative value is rejected with the
  message under the key \<^verbatim>\<open>value\<close>, and 0 passes.
\<close>

theorem lead_value_validation:
  assumes "trim (lf_title formData) \<noteq> []"
  shows
  "snd (LeadModal_validateForm (formData\<lparr>lf_value := v\<rparr>)) = (\<not> js_lt v (Fin 0)) \<and>
   (v \<noteq> NaN \<longrightarrow>
      snd (LeadModal_validateForm (formData\<lparr>lf_value := v\<rparr>)) = js_ge v (Fin 0)) \<and>
   snd (LeadModal_validateForm (handleValueChange parsed formData))
     = js_ge (lf_value (handleValueChange parsed formData)) (Fin 0) \<and>
   (js_lt v (Fin 0) \<longrightarrow>
      \<not> snd (LeadModal_validateForm (formData\<lparr>lf_value := v\<rparr>)) \<and>
      fst (LeadModal_validateForm (formData\<lparr>lf_value := v\<rparr>)) (str ''value'')
        = Some (str ''Value must be positive'')) \<and>
   snd (LeadModal_validateForm (formData\<lparr>lf_value := Fin 0\<rparr>))"
proof -
  have valid: "snd (LeadModal_validateForm (formData\<lparr>lf_value := x\<rparr>)) = (\<not> js_lt x (Fin 0))" for x
    using assms by (simp add: LeadModal_validateForm_def Let_def status_str_nonempty)
  have msg: "js_lt x (Fin 0) \<Longrightarrow>
      fst (LeadModal_validateForm (formData\<lparr>lf_value := x\<rparr>)) (str ''value'')
        = Some (str ''Value must be positive'')" for x
    by (simp add: LeadModal_validateForm_def Let_def)
  have stored: "orZero parsed \<noteq> NaN"
    by (simp add: orZero_def)
  show ?thesis
    using valid msg js_ge_zero [OF stored] js_ge_zero [of v]
    by (simp add: handleValueChange_def)
qed

theorem lead_value_validation_witness:
  "trim (str ''Deal'') \<noteq> [] \<and>
   \<not> snd (LeadModal_validateForm
        \<lparr>lf_title = str ''Deal'', lf_description = [], lf_status = New, lf_value = Fin (- 5)\<rparr>) \<and>
   fst (LeadModal_validateForm
        \<lparr>lf_title = str ''Deal'', lf_description = [], lf_status = New, lf_value = Fin (- 5)\<rparr>)
     (str ''value'') = Some (str ''Value must be positive'') \<and>
   snd (LeadModal_validateForm
        \<lparr>lf_title = str ''Deal'', lf_description = [], lf_status = New, lf_value = Fin 0\<rparr>)"
proof -
  have t: "trim (lf_title
      \<lparr>lf_title = str ''Deal'', lf_description = [], lf_status = New, lf_value = Fin 7\<rparr>) \<noteq> []"
    by (simp add: trim_def isWhiteSpace_def str_chars)
  have neg: "js_lt (Fin (- 5)) (Fin 0)"
    by simp
  show ?thesis
    using t neg
      lead_value_validation [OF t, where v = "Fin (- 5)" and parsed = NaN]
    by simp
qed

subsection \<open>Authentication state\<close>

lemma crm_keys_differ: "str ''crm_token'' \<noteq> str ''crm_user''"
  by (simp add: str_chars)

text \<open>
  C6. When the login endpoint answers with a token and a user, \<^verbatim>\<open>login\<close> returns
  normally, the in-memory user is the returned user (stamped with the current time) and
  the in-memory token is the returned token; the token and the serialised user are written
  under \<^verbatim>\<open>crm_token\<close> and \<^verbatim>\<open>crm_user\<close> to \<^verbatim>\<open>localStorage\<close> when
  \<^verbatim>\<open>rememberMe\<close> is true and to \<^verbatim>\<open>sessionStorage\<close> when it is false or omitted,
  and the other storage is left as it was.
\<close>

theorem login_success_persists:
  assumes "apiLogin email password = Inr data"
  shows
  "let rememberMe = (case rememberMeArg of None \<Rightarrow> False | Some b \<Rightarrow> b);
       userData = \<lparr>u_id = r_id data, u_name = r_name data, u_email = r_email data,
                   u_role = r_role data, u_createdAt = now\<rparr>;
       result = login apiLogin stringify now email password rememberMeArg s;
       s' = snd result;
       chosen = (if rememberMe then localStorage s' else sessionStorage s')
   in fst result = Inr () \<and>
      a_user s' = Some userData \<and> a_token s' = Some (r_token data) \<and>
      chosen (str ''crm_token'') = Some (r_token data) \<and>
      chosen (str ''crm_user'') = Some (stringify userData) \<and>
      (if rememberMe
       then localStorage s' =
              (localStorage s)(str ''crm_token'' \<mapsto> r_token data,
                               str ''crm_user'' \<mapsto> stringify userData) \<and>
            sessionStorage s' = sessionStorage s
       else sessionStorage s' =
              (sessionStorage s)(str ''crm_token'' \<mapsto> r_token data,
                                 str ''crm_user'' \<mapsto> stringify userData) \<and>
            localStorage s' = localStorage s)"
  using assms crm_keys_differ
  by (simp add: login_def persist_def Let_def split: option.splits)

theorem login_success_persists_witness:
  "localStorage
     (snd (login
        (\<lambda>email password. Inr \<lparr>r_token = str ''t0k'', r_id = str ''7'', r_name = str ''Ada'',
                                r_email = str ''ada@example.com'', r_role = Admin\<rparr>)
        u_name (str ''2024-03-01T08:00:00Z'') (str ''ada@example.com'') (str ''pw'') (Some True)
        \<lparr>a_user = None, a_token = None, a_loading = False,
         localStorage = Map.empty, sessionStorage = Map.empty\<rparr>))
     (str ''crm_token'') = Some (str ''t0k'') \<and>
   sessionStorage
     (snd (login
        (\<lambda>email password. Inr \<lparr>r_token = str ''t0k'', r_id = str ''7'', r_name = str ''Ada'',
                                r_email = str ''ada@example.com'', r_role = Admin\<rparr>)
        u_name (str ''2024-03-01T08:00:00Z'') (str ''ada@example.com'') (str ''pw'') None
        \<lparr>a_user = None, a_token = None, a_loading = False,
         localStorage = Map.empty, sessionStorage = Map.empty\<rparr>))
     (str ''crm_user'') = Some (str ''Ada'')"
  using
    login_success_persists [
        where apiLogin = "\<lambda>email password. Inr \<lparr>r_token = str ''t0k'', r_id = str ''7'',
            r_name = str ''Ada'', r_email = str ''ada@example.com'', r_role = Admin\<rparr>"
        and data = "\<lparr>r_token = str ''t0k'', r_id = str ''7'', r_name = str ''Ada'',
            r_email = str ''ada@example.com'', r_role = Admin\<rparr>"
        and email = "str ''ada@example.com''" and password = "str ''pw''"
        and stringify = u_name and now = "str ''2024-03-01T08:00:00Z''"
        and s = "\<lparr>a_user = None, a_token = None, a_loading = False,
                  localStorage = Map.empty, sessionStorage = Map.empty\<rparr>"
        and rememberMeArg = "Some True"]
    login_success_persists [
        where apiLogin = "\<lambda>email password. Inr \<lparr>r_token = str ''t0k'', r_id = str ''7'',
            r_name = str ''Ada'', r_email = str ''ada@example.com'', r_role = Admin\<rparr>"
        and data = "\<lparr>r_token = str ''t0k'', r_id = str ''7'', r_name = str ''Ada'',
            r_email = str ''ada@example.com'', r_role = Admin\<rparr>"
        and email = "str ''ada@example.com''" and password = "str ''pw''"
        and stringify = u_name and now = "str ''2024-03-01T08:00:00Z''"
        and s = "\<lparr>a_user = None, a_token = None, a_loading = False,
                  localStorage = Map.empty, sessionStorage = Map.empty\<rparr>"
        and rememberMeArg = None]
  by (simp add: Let_def crm_keys_differ)

text \<open>
  C7. \<^verbatim>\<open>logout\<close> sets the in-memory user and token to null and removes
  \<^verbatim>\<open>crm_token\<close> and \<^verbatim>\<open>crm_user\<close> from both storages, whatever the state was; the
  other keys of the storages and the loading flag are untouched.
\<close>

theorem logout_clears:
  "a_user (logout s) = None \<and> a_token (logout s) = None \<and>
   localStorage (logout s) (str ''crm_token'') = None \<and>
   localStorage (logout s) (str ''crm_user'') = None \<and>
   sessionStorage (logout s) (str ''crm_token'') = None \<and>
   sessionStorage (logout s) (str ''crm_user'') = None \<and>
   localStorage (logout s) = (localStorage s)(str ''crm_token'' := None, str ''crm_user'' := None) \<and>
   sessionStorage (logout s) =
     (sessionStorage s)(str ''crm_token'' := None, str ''crm_user'' := None) \<and>
   a_loading (logout s) = a_loading s"
  by (simp add: logout_def removeItem_def Let_def)

subsection \<open>Dashboard statistics\<close>

text \<open>
  The exponent of the leading bit is what its name says, and rounding to an integer moves
  a number by a half at most.
\<close>

lemma pow2_nonneg_exp: "0 \<le> e \<Longrightarrow> pow2 e = 2 ^ nat e"
  by (simp add: pow2_def)

lemma pow2_neg_exp: "e \<le> 0 \<Longrightarrow> pow2 e = 1 / 2 ^ nat (- e)"
  by (cases "e = 0") (simp_all add: pow2_def)

lemma ilog2_bounds:
  assumes "x \<noteq> 0"
  shows "pow2 (ilog2 x) \<le> \<bar>x\<bar>" and "\<bar>x\<bar> < pow2 (ilog2 x + 1)"
proof -
  have "pow2 (ilog2 x) \<le> \<bar>x\<bar> \<and> \<bar>x\<bar> < pow2 (ilog2 x + 1)"
  proof (cases "1 \<le> \<bar>x\<bar>")
    case True
    define n where "n = \<lfloor>\<bar>x\<bar>\<rfloor>"
    define b where "b = bitlen n"
    from True have n: "1 \<le> n" by (simp add: n_def le_floor_iff)
    then have bnd: "(2::int) ^ nat (b - 1) \<le> n" "n < 2 ^ nat b"
      using bitlen_bounds [of n] by (simp_all add: b_def)
    from n have b: "1 \<le> b"
      using bitlen_eq_zero_iff [of n] bitlen_nonneg [of n] unfolding b_def by linarith
    have il: "ilog2 x = b - 1"
      using True by (simp add: ilog2_def n_def b_def)
    have "(of_int ((2::int) ^ nat (b - 1)) :: rat) \<le> of_int n"
      using bnd(1) by (simp only: of_int_le_iff)
    also have "(of_int n :: rat) \<le> \<bar>x\<bar>"
      by (simp add: n_def)
    finally have lo: "pow2 (b - 1) \<le> \<bar>x\<bar>"
      using b by (simp add: pow2_nonneg_exp)
    have "\<bar>x\<bar> < of_int (n + 1)"
      unfolding n_def by linarith
    also from bnd(2) have "n + 1 \<le> 2 ^ nat b" by simp
    then have "(of_int (n + 1) :: rat) \<le> of_int (2 ^ nat b)"
      by (simp only: of_int_le_iff)
    finally have hi: "\<bar>x\<bar> < pow2 b"
      using b by (simp add: pow2_nonneg_exp)
    from lo hi il show ?thesis by simp
  next
    case False
    define y where "y = 1 / \<bar>x\<bar>"
    define n where "n = \<lceil>y\<rceil> - 1"
    define b where "b = bitlen n"
    from False assms have x: "0 < \<bar>x\<bar>" "\<bar>x\<bar> < 1" by simp_all
    then have y: "1 < y" by (simp add: y_def)
    then have n: "1 \<le> n" unfolding n_def by linarith
    then have bnd: "(2::int) ^ nat (b - 1) \<le> n" "n < 2 ^ nat b"
      using bitlen_bounds [of n] by (simp_all add: b_def)
    from n have b: "1 \<le> b"
      using bitlen_eq_zero_iff [of n] bitlen_nonneg [of n] unfolding b_def by linarith
    have il: "ilog2 x = - b"
      using False by (simp add: ilog2_def n_def b_def y_def)
    have ny: "of_int n < y" "y \<le> of_int (n + 1)"
      unfolding n_def by linarith+
    from bnd(2) have "n + 1 \<le> 2 ^ nat b" by simp
    then have "(of_int (n + 1) :: rat) \<le> of_int (2 ^ nat b)"
      by (simp only: of_int_le_iff)
    with ny(2) have "y \<le> 2 ^ nat b" by simp
    then have "1 / 2 ^ nat b \<le> \<bar>x\<bar>"
      using x(1) by (simp add: y_def field_simps)
    then have lo: "pow2 (- b) \<le> \<bar>x\<bar>"
      using b by (simp add: pow2_neg_exp)
    have "(2::rat) ^ nat (b - 1) = of_int (2 ^ nat (b - 1))"
      by simp
    also have "\<dots> \<le> of_int n"
      using bnd(1) by (simp only: of_int_le_iff)
    also note ny(1)
    finally have "2 ^ nat (b - 1) < y" .
    then have "\<bar>x\<bar> < 1 / 2 ^ nat (b - 1)"
      using x(1) by (simp add: y_def field_simps)
    moreover have "pow2 (- b + 1) = 1 / 2 ^ nat (b - 1)"
      using b pow2_neg_exp [of "- b + 1"] by simp
    ultimately have hi: "\<bar>x\<bar> < pow2 (- b + 1)" by simp
    from lo hi il show ?thesis by simp
  qed
  then show "pow2 (ilog2 x) \<le> \<bar>x\<bar>" and "\<bar>x\<bar> < pow2 (ilog2 x + 1)"
    by simp_all
qed

lemma roundHalfEven_nearest: "\<bar>of_int (roundHalfEven x) - x\<bar> \<le> 1 / 2"
  unfolding roundHalfEven_def Let_def by (auto simp: abs_if) linarith+

text \<open>
  Whole numbers up to \<open>2^53\<close> in magnitude are doubles, so rounding leaves them as
  they are.
\<close>

lemma roundHalfEven_of_int: "roundHalfEven (of_int m) = m"
  by (simp add: roundHalfEven_def)

lemma bitlen_le_54:
  assumes "0 < m" and "m \<le> 2 ^ 53"
  shows "1 \<le> bitlen m" and "bitlen m \<le> 54" and "bitlen m = 54 \<Longrightarrow> m = 2 ^ 53"
proof -
  from assms(1) have b: "(2::int) ^ nat (bitlen m - 1) \<le> m" "m < 2 ^ nat (bitlen m)"
    using bitlen_bounds [of m] by simp_all
  show pos: "1 \<le> bitlen m"
    using assms(1) bitlen_eq_zero_iff [of m] bitlen_nonneg [of m] by linarith
  from b(1) assms(2) have le: "(2::int) ^ nat (bitlen m - 1) \<le> 2 ^ 53" by (rule order_trans)
  have "(1::int) < 2" by simp
  from power_le_imp_le_exp [OF this le] have "nat (bitlen m - 1) \<le> 53" .
  then show "bitlen m \<le> 54" by linarith
  assume "bitlen m = 54"
  with b(1) have "(2::int) ^ 53 \<le> m" by simp
  with assms(2) show "m = 2 ^ 53" by linarith
qed

lemma roundDouble_of_int:
  assumes "\<bar>n\<bar> \<le> 2 ^ 53"
  shows "roundDouble (of_int n) = Fin (of_int n)"
proof (cases "n = 0")
  case True
  then show ?thesis by (simp add: roundDouble_def)
next
  case False
  define b where "b = bitlen \<bar>n\<bar>"
  define e where "e = max (ilog2 (of_int n) - 52) (- 1074)"
  from False assms have bb: "1 \<le> b" "b \<le> 54" "b = 54 \<Longrightarrow> \<bar>n\<bar> = 2 ^ 53"
    unfolding b_def using bitlen_le_54 [of "\<bar>n\<bar>"] by simp_all
  from False have "1 \<le> \<bar>n\<bar>" by linarith
  then have "(1::rat) \<le> of_int \<bar>n\<bar>" by (simp only: of_int_1_le_iff)
  then have il: "ilog2 (of_int n) = b - 1"
    unfolding ilog2_def b_def by (simp flip: of_int_abs)
  with bb have e: "e = b - 53"
    unfolding e_def by simp
  have scaled: "of_int (roundHalfEven (of_int n / pow2 e)) * pow2 e = (of_int n :: rat)"
  proof (cases "e \<le> 0")
    case True
    then have p: "pow2 e = 1 / 2 ^ nat (- e)"
      by (cases "e = 0") (simp_all add: pow2_def)
    then have q: "(of_int n :: rat) / pow2 e = of_int (n * 2 ^ nat (- e))"
      by simp
    have "of_int (roundHalfEven (of_int n / pow2 e)) * pow2 e
        = of_int (n * 2 ^ nat (- e)) * pow2 e"
      by (simp only: q roundHalfEven_of_int)
    also have "\<dots> = of_int n"
      by (simp add: p)
    finally show ?thesis .
  next
    case False
    with e bb have "e = 1" and n: "\<bar>n\<bar> = 2 ^ 53" by simp_all
    then have p: "pow2 e = 2" by (simp add: pow2_def)
    from n have "n = 2 ^ 53 \<or> n = - (2 ^ 53)" by linarith
    then have q: "(of_int n :: rat) / 2 = of_int (n div 2)" and h: "n div 2 * 2 = n"
      by auto
    have "of_int (roundHalfEven (of_int n / pow2 e)) * pow2 e
        = of_int (n div 2) * (2::rat)"
      by (simp only: p q roundHalfEven_of_int)
    also have "\<dots> = of_int (n div 2 * 2)"
      by simp
    also have "\<dots> = of_int n"
      by (simp only: h)
    finally show ?thesis .
  qed
  from il bb have "\<not> 1024 \<le> ilog2 (of_int n)"
    by simp
  with False scaled show ?thesis
    unfolding roundDouble_def Let_def e_def [symmetric] by simp
qed

lemma wholeAmountE:
  assumes "wholeAmount v"
  obtains n where "v = Fin (of_int n)"
  using assms by (cases v) (auto simp: wholeAmount_def)

lemma wholeAmount_of_int [simp]: "wholeAmount (Fin (of_int n))"
  by (simp add: wholeAmount_def)

lemma amount_Fin [simp]: "amount (Fin q) = q"
  by (simp add: amount_def)

lemma js_add_whole:
  assumes "wholeAmount a" and "wholeAmount b" and "\<bar>amount a + amount b\<bar> \<le> 2 ^ 53"
  shows "js_add a b = Fin (amount a + amount b)" and "wholeAmount (js_add a b)"
proof -
  from assms(1) obtain i where a: "a = Fin (of_int i)" by (rule wholeAmountE)
  from assms(2) obtain j where b: "b = Fin (of_int j)" by (rule wholeAmountE)
  from assms(3) have "\<bar>(of_int (i + j) :: rat)\<bar> \<le> of_int (2 ^ 53)"
    by (simp add: a b)
  then have "(of_int \<bar>i + j\<bar> :: rat) \<le> of_int (2 ^ 53)"
    by (simp only: of_int_abs)
  then have "\<bar>i + j\<bar> \<le> 2 ^ 53"
    by (simp only: of_int_le_iff)
  then have "roundDouble (of_int (i + j)) = Fin (of_int (i + j))"
    by (rule roundDouble_of_int)
  then have r: "js_add a b = Fin (of_int (i + j))"
    by (simp add: a b)
  then show "js_add a b = Fin (amount a + amount b)"
    by (simp add: a b)
  from r show "wholeAmount (js_add a b)"
    by (simp only: wholeAmount_of_int)
qed

lemma foldl_js_add_exact:
  assumes "wholeAmount a" and "list_all wholeAmount vs"
    and "\<bar>amount a\<bar> + (\<Sum>v\<leftarrow>vs. \<bar>amount v\<bar>) \<le> 2 ^ 53"
  shows "foldl js_add a vs = Fin (amount a + (\<Sum>v\<leftarrow>vs. amount v)) \<and>
         wholeAmount (foldl js_add a vs)"
  using assms
proof (induction vs arbitrary: a)
  case Nil
  then show ?case
    by (auto elim: wholeAmountE)
next
  case (Cons v vs)
  have nonneg: "0 \<le> (\<Sum>v\<leftarrow>vs. \<bar>amount v\<bar>)"
    by (rule sum_list_nonneg) auto
  from Cons.prems have v: "wholeAmount v" and vs: "list_all wholeAmount vs"
    by simp_all
  from Cons.prems(3) nonneg have small: "\<bar>amount a + amount v\<bar> \<le> 2 ^ 53"
    by simp
  from js_add_whole [OF Cons.prems(1) v small]
  have step: "js_add a v = Fin (amount a + amount v)" "wholeAmount (js_add a v)" .
  from Cons.prems(3) step(1)
  have "\<bar>amount (js_add a v)\<bar> + (\<Sum>v\<leftarrow>vs. \<bar>amount v\<bar>) \<le> 2 ^ 53"
    by simp
  from Cons.IH [OF step(2) vs this]
  have "foldl js_add (js_add a v) vs = Fin (amount (js_add a v) + (\<Sum>v\<leftarrow>vs. amount v))"
    and w: "wholeAmount (foldl js_add (js_add a v) vs)"
    by blast+
  moreover have "amount (js_add a v) = amount a + amount v"
    using step(1) by simp
  ultimately have "foldl js_add (js_add a v) vs = Fin (amount a + amount v + (\<Sum>v\<leftarrow>vs. amount v))"
    by simp
  then have "foldl js_add a (v # vs) = Fin (amount a + (\<Sum>v\<leftarrow>v # vs. amount v))"
    by (simp add: add.assoc)
  moreover from w have "wholeAmount (foldl js_add a (v # vs))"
    by simp
  ultimately show ?case
    by (rule conjI)
qed

lemma wholeAmount_zero [simp]: "wholeAmount (Fin 0)"
  by (simp add: wholeAmount_def)

lemma valueOrZero_whole: "wholeAmount w \<Longrightarrow> valueOrZero (Some w) = w"
  by (auto simp: valueOrZero_def orZero_def elim: wholeAmountE)

lemma sumCounts_bump:
  "sumCounts (acc(st \<mapsto> Suc (countOrZero (acc st)))) = Suc (sumCounts acc)"
  by (cases st) (simp_all add: sumCounts_def leadStatuses_def countOrZero_def)

lemma sumCounts_foldl:
  "sumCounts (foldl (\<lambda>acc lead. acc(l_status lead \<mapsto> Suc (countOrZero (acc (l_status lead)))))
      acc ls) = sumCounts acc + length ls"
  by (induction ls arbitrary: acc) (simp_all add: sumCounts_bump)

lemma count_by_status:
  "countOrZero
     (foldl (\<lambda>acc lead. acc(l_status lead \<mapsto> Suc (countOrZero (acc (l_status lead))))) acc ls st)
     = countOrZero (acc st) + length (filter (\<lambda>l. l_status l = st) ls)"
  by (induction ls arbitrary: acc) (auto simp: countOrZero_def)

lemma value_by_status_proj:
  "foldl (\<lambda>acc lead.
            acc(l_status lead \<mapsto> js_add (valueOrZero (acc (l_status lead))) (l_value lead)))
     acc ls st
   = foldl (\<lambda>v x. Some (js_add (valueOrZero v) x)) (acc st)
       (map l_value (filter (\<lambda>l. l_status l = st) ls))"
  by (induction ls arbitrary: acc) auto

lemma per_status_exact_Some:
  assumes "wholeAmount w" and "list_all wholeAmount vs"
    and "\<bar>amount w\<bar> + (\<Sum>v\<leftarrow>vs. \<bar>amount v\<bar>) \<le> 2 ^ 53"
  shows "foldl (\<lambda>v x. Some (js_add (valueOrZero v) x)) (Some w) vs
         = Some (foldl js_add w vs)"
  using assms
proof (induction vs arbitrary: w)
  case Nil
  show ?case by simp
next
  case (Cons v vs)
  have nonneg: "0 \<le> (\<Sum>v\<leftarrow>vs. \<bar>amount v\<bar>)"
    by (rule sum_list_nonneg) auto
  from Cons.prems have v: "wholeAmount v" and vs: "list_all wholeAmount vs"
    by simp_all
  from Cons.prems(3) nonneg have small: "\<bar>amount w + amount v\<bar> \<le> 2 ^ 53"
    by simp
  from js_add_whole [OF Cons.prems(1) v small]
  have step: "js_add w v = Fin (amount w + amount v)" "wholeAmount (js_add w v)" .
  from Cons.prems(3) step(1)
  have "\<bar>amount (js_add w v)\<bar> + (\<Sum>v\<leftarrow>vs. \<bar>amount v\<bar>) \<le> 2 ^ 53"
    by simp
  from Cons.IH [OF step(2) vs this] show ?case
    by (simp add: valueOrZero_whole [OF Cons.prems(1)])
qed

lemma per_status_exact:
  assumes "list_all wholeAmount vs" and "(\<Sum>v\<leftarrow>vs. \<bar>amount v\<bar>) \<le> 2 ^ 53"
  shows "foldl (\<lambda>v x. Some (js_add (valueOrZero v) x)) None vs
         = (if vs = [] then None else Some (Fin (\<Sum>v\<leftarrow>vs. amount v)))"
    and "wholeAmount (Fin (\<Sum>v\<leftarrow>vs. amount v))"
proof -
  from assms(2) have "\<bar>amount (Fin 0)\<bar> + (\<Sum>v\<leftarrow>vs. \<bar>amount v\<bar>) \<le> 2 ^ 53"
    by simp
  from foldl_js_add_exact [OF wholeAmount_zero assms(1) this]
  have "foldl js_add (Fin 0) vs = Fin (amount (Fin 0) + (\<Sum>v\<leftarrow>vs. amount v))"
    and whole: "wholeAmount (foldl js_add (Fin 0) vs)"
    by blast+
  then have total: "foldl js_add (Fin 0) vs = Fin (\<Sum>v\<leftarrow>vs. amount v)"
    by simp
  from whole show "wholeAmount (Fin (\<Sum>v\<leftarrow>vs. amount v))"
    by (simp only: total)
  show "foldl (\<lambda>v x. Some (js_add (valueOrZero v) x)) None vs
         = (if vs = [] then None else Some (Fin (\<Sum>v\<leftarrow>vs. amount v)))"
  proof (cases vs)
    case Nil
    then show ?thesis by simp
  next
    case (Cons x xs)
    have "foldl (\<lambda>v x. Some (js_add (valueOrZero v) x)) None vs
        = foldl (\<lambda>v x. Some (js_add (valueOrZero v) x)) (Some (Fin 0)) vs"
      by (simp add: Cons valueOrZero_def orZero_def)
    also have "\<dots> = Some (foldl js_add (Fin 0) vs)"
      using assms by (intro per_status_exact_Some) simp_all
    finally have "foldl (\<lambda>v x. Some (js_add (valueOrZero v) x)) None vs
        = Some (Fin (\<Sum>v\<leftarrow>vs. amount v))"
      by (simp only: total)
    moreover from Cons have "vs \<noteq> []"
      by simp
    ultimately show ?thesis
      by simp
  qed
qed

lemma sum_list_delta:
  "distinct xs \<Longrightarrow> (\<Sum>y\<leftarrow>xs. if x = y then (c::rat) else 0) = (if x \<in> set xs then c else 0)"
  by (induction xs) auto

lemma partition_by_status:
  fixes f :: "status lead \<Rightarrow> rat"
  assumes "distinct order" and "set order = UNIV"
  shows "(\<Sum>st\<leftarrow>order. \<Sum>l\<leftarrow>filter (\<lambda>l. l_status l = st) ls. f l) = (\<Sum>l\<leftarrow>ls. f l)"
proof (induction ls)
  case Nil
  show ?case by simp
next
  case (Cons l ls)
  have "(\<Sum>st\<leftarrow>order. \<Sum>x\<leftarrow>filter (\<lambda>x. l_status x = st) (l # ls). f x)
      = (\<Sum>st\<leftarrow>order. (if l_status l = st then f l else 0)
            + (\<Sum>x\<leftarrow>filter (\<lambda>x. l_status x = st) ls. f x))"
    by (intro arg_cong [where f = sum_list] map_cong) simp_all
  also have "\<dots> = (\<Sum>st\<leftarrow>order. if l_status l = st then f l else 0)
            + (\<Sum>st\<leftarrow>order. \<Sum>x\<leftarrow>filter (\<lambda>x. l_status x = st) ls. f x)"
    by (simp add: sum_list_addf)
  also have "\<dots> = f l + (\<Sum>x\<leftarrow>ls. f x)"
    using assms by (simp add: sum_list_delta Cons.IH)
  finally show ?case by simp
qed

lemma present_values:
  assumes "\<And>st. (m st = None \<and> S st = 0) \<or> (m st = Some (Fin (S st)) \<and> wholeAmount (Fin (S st)))"
  shows "list_all wholeAmount (map the (filter (\<lambda>v. v \<noteq> None) (map m order))) \<and>
         (\<Sum>v\<leftarrow>map the (filter (\<lambda>v. v \<noteq> None) (map m order)). amount v) = (\<Sum>st\<leftarrow>order. S st) \<and>
         (\<Sum>v\<leftarrow>map the (filter (\<lambda>v. v \<noteq> None) (map m order)). \<bar>amount v\<bar>)
           = (\<Sum>st\<leftarrow>order. \<bar>S st\<bar>)"
proof (induction order)
  case Nil
  show ?case by simp
next
  case (Cons st order)
  from assms [of st] Cons.IH show ?case
    by auto
qed

lemma sum_list_filter_le:
  fixes f :: "'a \<Rightarrow> rat"
  assumes "\<And>x. 0 \<le> f x"
  shows "(\<Sum>x\<leftarrow>filter P xs. f x) \<le> (\<Sum>x\<leftarrow>xs. f x)"
  by (induction xs) (auto intro: add_increasing assms)

lemma abs_sum_list_le:
  fixes f :: "'a \<Rightarrow> rat"
  shows "\<bar>\<Sum>x\<leftarrow>xs. f x\<bar> \<le> (\<Sum>x\<leftarrow>xs. \<bar>f x\<bar>)"
  using sum_list_abs [of "map f xs"] by (simp add: comp_def)

lemma stats_exact:
  assumes ex: "exactAmounts (leads s)" and d: "distinct order" and u: "set order = UNIV"
  shows "totalValue (getDashboardStats s) = Fin (\<Sum>l\<leftarrow>leads s. amount (l_value l))"
    and "sumValues order (valueByStatus (getDashboardStats s)) = totalValue (getDashboardStats s)"
proof -
  define ls where "ls = leads s"
  define vs where "vs st = map l_value (filter (\<lambda>l. l_status l = st) ls)" for st
  define S where "S st = (\<Sum>v\<leftarrow>vs st. amount v)" for st
  define m where "m = valueByStatus (getDashboardStats s)"
  from ex have whole: "list_all wholeAmount (map l_value ls)"
    and bound: "(\<Sum>l\<leftarrow>ls. \<bar>amount (l_value l)\<bar>) \<le> 2 ^ 53"
    by (simp_all add: exactAmounts_def ls_def list_all_iff)
  have sums: "(\<Sum>v\<leftarrow>map l_value xs. amount v) = (\<Sum>l\<leftarrow>xs. amount (l_value l))"
    "(\<Sum>v\<leftarrow>map l_value xs. \<bar>amount v\<bar>) = (\<Sum>l\<leftarrow>xs. \<bar>amount (l_value l)\<bar>)" for xs :: "status lead list"
    by (simp_all add: comp_def)
  from bound have "(\<Sum>v\<leftarrow>map l_value ls. \<bar>amount v\<bar>) \<le> 2 ^ 53"
    by (simp only: sums)
  then have "\<bar>amount (Fin 0)\<bar> + (\<Sum>v\<leftarrow>map l_value ls. \<bar>amount v\<bar>) \<le> 2 ^ 53"
    by simp
  from foldl_js_add_exact [OF wholeAmount_zero whole this]
  have "foldl js_add (Fin 0) (map l_value ls) = Fin (amount (Fin 0) + (\<Sum>v\<leftarrow>map l_value ls. amount v))"
    by blast
  then have total: "totalValue (getDashboardStats s) = Fin (\<Sum>l\<leftarrow>ls. amount (l_value l))"
    by (simp add: getDashboardStats_def ls_def foldl_map comp_def)
  then show "totalValue (getDashboardStats s) = Fin (\<Sum>l\<leftarrow>leads s. amount (l_value l))"
    by (simp add: ls_def)
  have vs_whole: "list_all wholeAmount (vs st)" for st
    using whole by (simp add: vs_def list_all_iff)
  have vs_le: "(\<Sum>v\<leftarrow>vs st. \<bar>amount v\<bar>) \<le> (\<Sum>l\<leftarrow>ls. \<bar>amount (l_value l)\<bar>)" for st
    unfolding vs_def sums by (rule sum_list_filter_le) simp
  have vs_bound: "(\<Sum>v\<leftarrow>vs st. \<bar>amount v\<bar>) \<le> 2 ^ 53" for st
    using vs_le [of st] bound by (rule order_trans)
  have m_eq: "m st = foldl (\<lambda>v x. Some (js_add (valueOrZero v) x)) None (vs st)" for st
    by (simp add: m_def getDashboardStats_def value_by_status_proj vs_def ls_def)
  have entry: "(m st = None \<and> S st = 0) \<or> (m st = Some (Fin (S st)) \<and> wholeAmount (Fin (S st)))" for st
    using per_status_exact [OF vs_whole [of st] vs_bound [of st]]
    by (cases "vs st = []") (simp_all add: m_eq S_def)
  define P where "P = map the (filter (\<lambda>v. v \<noteq> None) (map m order))"
  from present_values [of m S order, OF entry]
  have P_whole: "list_all wholeAmount P"
    and P_sum: "(\<Sum>v\<leftarrow>P. amount v) = (\<Sum>st\<leftarrow>order. S st)"
    and P_abs: "(\<Sum>v\<leftarrow>P. \<bar>amount v\<bar>) = (\<Sum>st\<leftarrow>order. \<bar>S st\<bar>)"
    unfolding P_def by blast+
  have "(\<Sum>st\<leftarrow>order. \<bar>S st\<bar>) \<le> (\<Sum>st\<leftarrow>order. \<Sum>v\<leftarrow>vs st. \<bar>amount v\<bar>)"
    unfolding S_def by (intro sum_list_mono abs_sum_list_le)
  also have "\<dots> = (\<Sum>st\<leftarrow>order. \<Sum>l\<leftarrow>filter (\<lambda>l. l_status l = st) ls. \<bar>amount (l_value l)\<bar>)"
    by (simp add: vs_def comp_def)
  also have "\<dots> = (\<Sum>l\<leftarrow>ls. \<bar>amount (l_value l)\<bar>)"
    using d u by (rule partition_by_status)
  finally have "(\<Sum>v\<leftarrow>P. \<bar>amount v\<bar>) \<le> 2 ^ 53"
    using bound by (simp add: P_abs)
  then have "\<bar>amount (Fin 0)\<bar> + (\<Sum>v\<leftarrow>P. \<bar>amount v\<bar>) \<le> 2 ^ 53"
    by simp
  from foldl_js_add_exact [OF wholeAmount_zero P_whole this]
  have "foldl js_add (Fin 0) P = Fin (amount (Fin 0) + (\<Sum>v\<leftarrow>P. amount v))"
    by blast
  also have "\<dots> = Fin (\<Sum>st\<leftarrow>order. \<Sum>l\<leftarrow>filter (\<lambda>l. l_status l = st) ls. amount (l_value l))"
    by (simp add: P_sum S_def vs_def comp_def)
  also have "\<dots> = Fin (\<Sum>l\<leftarrow>ls. amount (l_value l))"
    using d u by (simp only: partition_by_status)
  finally show "sumValues order (valueByStatus (getDashboardStats s)) = totalValue (getDashboardStats s)"
    by (simp add: sumValues_def P_def m_def total)
qed

text \<open>
  C8, amended. \<^verbatim>\<open>getDashboardStats\<close> returns the two list lengths, the left-to-right
  floating-point sum of the lead values, per-status counts that are the numbers of leads
  of each status and add up to \<^verbatim>\<open>totalLeads\<close>; and when every lead value is a whole
  number and the absolute values add up to \<open>2^53\<close> at most, \<^verbatim>\<open>totalValue\<close> is the
  exact sum of the lead values and the per-status sums of \<^verbatim>\<open>valueByStatus\<close>, added
  in any order of the statuses, give \<^verbatim>\<open>totalValue\<close>.
\<close>

theorem dashboard_stats_consistent:
  "totalCustomers (getDashboardStats s) = length (customers s) \<and>
   totalLeads (getDashboardStats s) = length (leads s) \<and>
   totalValue (getDashboardStats s) = foldl js_add (Fin 0) (map l_value (leads s)) \<and>
   sumCounts (leadsByStatus (getDashboardStats s)) = totalLeads (getDashboardStats s) \<and>
   countOrZero (leadsByStatus (getDashboardStats s) st)
     = length (filter (\<lambda>l. l_status l = st) (leads s)) \<and>
   (exactAmounts (leads s) \<longrightarrow> distinct order \<longrightarrow> set order = UNIV \<longrightarrow>
      totalValue (getDashboardStats s) = Fin (\<Sum>l\<leftarrow>leads s. amount (l_value l)) \<and>
      sumValues order (valueByStatus (getDashboardStats s)) = totalValue (getDashboardStats s))"
proof -
  have "sumCounts Map.empty = 0" "countOrZero (Map.empty st) = 0"
    by (simp_all add: sumCounts_def leadStatuses_def countOrZero_def)
  then have "sumCounts (leadsByStatus (getDashboardStats s)) = totalLeads (getDashboardStats s)"
    and "countOrZero (leadsByStatus (getDashboardStats s) st)
     = length (filter (\<lambda>l. l_status l = st) (leads s))"
    by (simp_all add: getDashboardStats_def sumCounts_foldl count_by_status)
  moreover have "totalValue (getDashboardStats s) = foldl js_add (Fin 0) (map l_value (leads s))"
    by (simp add: getDashboardStats_def foldl_map)
  moreover have "totalCustomers (getDashboardStats s) = length (customers s)"
    "totalLeads (getDashboardStats s) = length (leads s)"
    by (simp_all add: getDashboardStats_def)
  ultimately show ?thesis
    using stats_exact [of s order] by blast
qed

theorem dashboard_stats_consistent_witness:
  "exactAmounts (leads (loadData (Some exampleUser) initialState)) \<and>
   distinct leadStatuses \<and> set leadStatuses = UNIV \<and>
   totalValue (getDashboardStats (loadData (Some exampleUser) initialState)) = Fin 165000 \<and>
   sumValues leadStatuses
     (valueByStatus (getDashboardStats (loadData (Some exampleUser) initialState))) = Fin 165000 \<and>
   sumCounts (leadsByStatus (getDashboardStats (loadData (Some exampleUser) initialState))) = 4"
proof -
  have l: "leads (loadData (Some exampleUser) initialState) = mockLeads"
    by (simp add: loadData_def)
  have e: "exactAmounts (leads (loadData (Some exampleUser) initialState))"
    by (simp add: l exactAmounts_def mockLeads_def wholeAmount_def)
  have u: "set leadStatuses = UNIV"
  proof -
    have "st \<in> set leadStatuses" for st
      by (cases st) (simp_all add: leadStatuses_def)
    then show ?thesis by blast
  qed
  have d: "distinct leadStatuses"
    by (simp add: leadStatuses_def)
  have sum: "(\<Sum>l\<leftarrow>leads (loadData (Some exampleUser) initialState). amount (l_value l)) = 165000"
    by (simp add: l mockLeads_def)
  have len: "length (leads (loadData (Some exampleUser) initialState)) = 4"
    by (simp add: l mockLeads_def)
  from e d u
    dashboard_stats_consistent [of "loadData (Some exampleUser) initialState" New leadStatuses]
  have tv: "totalValue (getDashboardStats (loadData (Some exampleUser) initialState))
      = Fin (\<Sum>l\<leftarrow>leads (loadData (Some exampleUser) initialState). amount (l_value l))"
    and sv: "sumValues leadStatuses
        (valueByStatus (getDashboardStats (loadData (Some exampleUser) initialState)))
      = totalValue (getDashboardStats (loadData (Some exampleUser) initialState))"
    and sc: "sumCounts (leadsByStatus (getDashboardStats (loadData (Some exampleUser) initialState)))
      = totalLeads (getDashboardStats (loadData (Some exampleUser) initialState))"
    and tl: "totalLeads (getDashboardStats (loadData (Some exampleUser) initialState))
      = length (leads (loadData (Some exampleUser) initialState))"
    by blast+
  from tv have tv': "totalValue (getDashboardStats (loadData (Some exampleUser) initialState))
      = Fin 165000"
    by (simp only: sum)
  from sv have sv': "sumValues leadStatuses
        (valueByStatus (getDashboardStats (loadData (Some exampleUser) initialState)))
      = Fin 165000"
    by (simp only: tv')
  from sc have sc': "sumCounts
        (leadsByStatus (getDashboardStats (loadData (Some exampleUser) initialState))) = 4"
    by (simp only: tl len)
  from e d u tv' sv' sc' show ?thesis
    by blast
qed

lemma centLeads_total:
  "totalValue (getDashboardStats \<lparr>customers = mockCustomers, leads = centLeads, loading = False\<rparr>)
     = Fin (698057942242427 / 2251799813685248)"
  by code_simp

lemma centLeads_by_status:
  "map (valueByStatus
          (getDashboardStats \<lparr>customers = mockCustomers, leads = centLeads, loading = False\<rparr>))
     leadStatuses
     = [Some (Fin (7926335344172073 / 72057594037927936)),
        Some (Fin (3602879701896397 / 18014398509481984)), None, None]"
  by code_simp

lemma centLeads_sum:
  "sumValues leadStatuses
     (valueByStatus
        (getDashboardStats \<lparr>customers = mockCustomers, leads = centLeads, loading = False\<rparr>))
     = Fin (5584463537939415 / 18014398509481984)"
  by code_simp

text \<open>
  C8, as stated, fails for the value sums. For three leads with the values 0.1 (New),
  0.2 (Contacted) and 0.01 (New), which the value field (step 0.01) accepts,
  \<^verbatim>\<open>totalValue\<close> is \<^verbatim>\<open>0 + 0.1 + 0.2 + 0.01 = 0.31000000000000005\<close>, while
  \<^verbatim>\<open>valueByStatus\<close> holds \<^verbatim>\<open>0.11\<close> for New and \<^verbatim>\<open>0.2\<close> for Contacted, whose sum is
  \<^verbatim>\<open>0.31\<close> as a number, and differs from \<^verbatim>\<open>totalValue\<close> as an exact sum too.
\<close>

theorem dashboard_value_sums_counterexample:
  "totalValue (getDashboardStats \<lparr>customers = mockCustomers, leads = centLeads, loading = False\<rparr>)
     = Fin (698057942242427 / 2251799813685248) \<and>
   map (valueByStatus
          (getDashboardStats \<lparr>customers = mockCustomers, leads = centLeads, loading = False\<rparr>))
     leadStatuses
     = [Some (Fin (7926335344172073 / 72057594037927936)),
        Some (Fin (3602879701896397 / 18014398509481984)), None, None] \<and>
   sumValues leadStatuses
     (valueByStatus
        (getDashboardStats \<lparr>customers = mockCustomers, leads = centLeads, loading = False\<rparr>))
     = Fin (5584463537939415 / 18014398509481984) \<and>
   sumValues leadStatuses
     (valueByStatus
        (getDashboardStats \<lparr>customers = mockCustomers, leads = centLeads, loading = False\<rparr>))
     \<noteq> totalValue
         (getDashboardStats \<lparr>customers = mockCustomers, leads = centLeads, loading = False\<rparr>) \<and>
   (7926335344172073 / 72057594037927936 + 3602879701896397 / 18014398509481984 :: rat)
     \<noteq> 698057942242427 / 2251799813685248"
  by (simp add: centLeads_total centLeads_by_status centLeads_sum)

end
